theory Spec2Isabelle
  imports Main "HOL-Library.Word" "HOL-Library.Sublist" "HOL-Library.Char_ord"
    "HOL-Library.List_Lexorder"
begin

unbundle bit_operations_syntax

section \<open>Python values used by \<^verbatim>\<open>download_nvidia.py\<close>\<close>

subsection \<open>Strings\<close>

text \<open>
  \<^verbatim>\<open>s.split(sep)\<close> for a one-character separator: the pieces between the occurrences of
  the separator, so that there is always one piece more than there are separators.
\<close>

fun py_split :: "char \<Rightarrow> string \<Rightarrow> string list" where
  "py_split c [] = [[]]"
| "py_split c (x # xs) =
     (if x = c then [] # py_split c xs
      else (case py_split c xs of
              [] \<Rightarrow> [[x]]
            | y # ys \<Rightarrow> (x # y) # ys))"

text \<open>
  \<^verbatim>\<open>sub in s\<close> on strings, which is also what \<^verbatim>\<open>re.search\<close> computes for a pattern
  made of literal characters only (\<^verbatim>\<open>r"\.tar\."\<close> and \<^verbatim>\<open>r"\.zip"\<close> in the source).
\<close>

fun py_in_str :: "string \<Rightarrow> string \<Rightarrow> bool" where
  "py_in_str sub [] = (sub = [])"
| "py_in_str sub (x # xs) = (prefix sub (x # xs) \<or> py_in_str sub xs)"

definition py_endswith :: "string \<Rightarrow> string \<Rightarrow> bool" where
  "py_endswith s suf = suffix suf s"

definition py_startswith :: "string \<Rightarrow> string \<Rightarrow> bool" where
  "py_startswith s pre = prefix pre s"

text \<open>\<^verbatim>\<open>os.path.basename\<close> and \<^verbatim>\<open>os.path.join\<close> of \<^verbatim>\<open>posixpath\<close>.\<close>

definition basename :: "string \<Rightarrow> string" where
  "basename p = last (py_split CHR ''/'' p)"

definition join :: "string \<Rightarrow> string \<Rightarrow> string" where
  "join a b =
     (if py_startswith b ''/'' then b
      else if a = [] \<or> py_endswith a ''/'' then a @ b
      else a @ ''/'' @ b)"

definition join3 :: "string \<Rightarrow> string \<Rightarrow> string \<Rightarrow> string" where
  "join3 a b c = join (join a b) c"

subsection \<open>Exceptions\<close>

datatype exn =
    KeyError | TypeError | AttributeError | IndexError
  | FileNotFoundError | FileExistsError | NotADirectoryError | IsADirectoryError
  | TooManyLinks | RmtreeOnSymlink | SameFileError
  | InvalidArgument | DirectoryNotEmpty | DeviceBusy
  | ShutilError "exn list"
  | ReadError | BadZipFile | ValueError
  | URLError | HTTPError nat

text \<open>
  \<open>TooManyLinks\<close>, \<open>InvalidArgument\<close>, \<open>DirectoryNotEmpty\<close> and \<open>DeviceBusy\<close> are
  the \<^verbatim>\<open>OSError\<close> of \<^verbatim>\<open>ELOOP\<close>, \<^verbatim>\<open>EINVAL\<close>, \<^verbatim>\<open>ENOTEMPTY\<close> and \<^verbatim>\<open>EBUSY\<close>;
  \<open>RmtreeOnSymlink\<close> is the \<^verbatim>\<open>OSError\<close> that \<^verbatim>\<open>shutil.rmtree\<close> raises for a symbolic
  link.
  \<^verbatim>\<open>except FileExistsError\<close> catches that class only; \<^verbatim>\<open>shutil.Error\<close> is a
  subclass of \<^verbatim>\<open>OSError\<close>, not of \<^verbatim>\<open>FileExistsError\<close>. \<^verbatim>\<open>HTTPError\<close> carries the
  status of the response; it is a subclass of \<^verbatim>\<open>URLError\<close>, and so of \<^verbatim>\<open>OSError\<close>.
\<close>

definition is_OSError :: "exn \<Rightarrow> bool" where
  "is_OSError e =
     (case e of
        FileNotFoundError \<Rightarrow> True | FileExistsError \<Rightarrow> True
      | NotADirectoryError \<Rightarrow> True | IsADirectoryError \<Rightarrow> True
      | TooManyLinks \<Rightarrow> True | RmtreeOnSymlink \<Rightarrow> True
      | SameFileError \<Rightarrow> True
      | InvalidArgument \<Rightarrow> True | DirectoryNotEmpty \<Rightarrow> True | DeviceBusy \<Rightarrow> True
      | ShutilError _ \<Rightarrow> True | URLError \<Rightarrow> True | HTTPError _ \<Rightarrow> True
      | _ \<Rightarrow> False)"

subsection \<open>JSON values and the operations the walker applies to them\<close>

text \<open>
  What \<^verbatim>\<open>json.loads\<close> returns. An object is a Python \<^verbatim>\<open>dict\<close>, kept as an association
  list in document order (its keys are distinct in a loaded document).
\<close>

datatype json =
    JNull | JBool bool | JNum int | JStr string
  | JArr "json list" | JObj "(string \<times> json) list"

text \<open>\<^verbatim>\<open>key in v\<close> for a string key.\<close>

definition py_in :: "string \<Rightarrow> json \<Rightarrow> exn + bool" where
  "py_in k v =
     (case v of
        JObj kvs \<Rightarrow> Inr (k \<in> set (map fst kvs))
      | JArr xs \<Rightarrow> Inr (JStr k \<in> set xs)
      | JStr s \<Rightarrow> Inr (py_in_str k s)
      | _ \<Rightarrow> Inl TypeError)"

text \<open>\<^verbatim>\<open>v[key]\<close> for a string key.\<close>

definition py_getitem :: "json \<Rightarrow> string \<Rightarrow> exn + json" where
  "py_getitem v k =
     (case v of
        JObj kvs \<Rightarrow> (case map_of kvs k of None \<Rightarrow> Inl KeyError | Some x \<Rightarrow> Inr x)
      | _ \<Rightarrow> Inl TypeError)"

text \<open>\<^verbatim>\<open>v.keys()\<close>.\<close>

definition py_keys :: "json \<Rightarrow> exn + string list" where
  "py_keys v = (case v of JObj kvs \<Rightarrow> Inr (map fst kvs) | _ \<Rightarrow> Inl AttributeError)"

text \<open>\<^verbatim>\<open>isinstance(v, str)\<close>, and the operand of a string concatenation.\<close>

definition is_str :: "json \<Rightarrow> bool" where
  "is_str v = (case v of JStr _ \<Rightarrow> True | _ \<Rightarrow> False)"

definition py_str_operand :: "json \<Rightarrow> exn + string" where
  "py_str_operand v = (case v of JStr s \<Rightarrow> Inr s | _ \<Rightarrow> Inl TypeError)"

text \<open>\<^verbatim>\<open>xs[i]\<close> on a list, for an index that is not negative.\<close>

definition py_index :: "'a list \<Rightarrow> nat \<Rightarrow> exn + 'a" where
  "py_index xs i = (if i < length xs then Inr (xs ! i) else Inl IndexError)"

text \<open>Sequencing of fallible pure computations (an exception ends the expression).\<close>

definition ebind :: "exn + 'a \<Rightarrow> ('a \<Rightarrow> exn + 'b) \<Rightarrow> exn + 'b" where
  "ebind m f = (case m of Inl e \<Rightarrow> Inl e | Inr x \<Rightarrow> f x)"


section \<open>The file system\<close>

text \<open>
  A POSIX file tree. A regular file has a content; a symbolic link has a target; a
  directory has named entries. The permission bits of the regular files (the low
  twelve bits of \<^verbatim>\<open>st_mode\<close>) are kept beside the tree, in a table indexed by the
  canonical path of the file, as the attributes of an inode are kept beside the
  directory entries. Directory permissions, ownership and time stamps are not modelled:
  the process is taken to own every file and to be allowed to read every directory.

  A content is kept by what its bytes decode to: a JSON document, a tar-family archive
  or a zip archive with their members, or bytes that are none of these.
\<close>

type_synonym perm = "12 word"

datatype member = MFile perm string | MDir | MLink string

datatype content =
    Bytes string
  | JsonDoc json
  | TarArchive "(string \<times> member) list"
  | ZipArchive "(string \<times> member) list"

datatype node = File content | Link string | Dir "(string \<times> node) list"

text \<open>The node at a canonical path (a list of entry names from the root).\<close>

fun lookup_node :: "node \<Rightarrow> string list \<Rightarrow> node option" where
  "lookup_node n [] = Some n"
| "lookup_node (Dir es) (c # cs) =
     (case map_of es c of None \<Rightarrow> None | Some n \<Rightarrow> lookup_node n cs)"
| "lookup_node _ (c # cs) = None"

text \<open>
  Storing a node at a canonical path whose parent directory exists: the entry is
  replaced, or added to the parent.
\<close>

fun put_node :: "node \<Rightarrow> string list \<Rightarrow> node \<Rightarrow> node" where
  "put_node old [] n = n"
| "put_node (Dir es) (c # cs) n =
     (case map_of es c of
        Some _ \<Rightarrow> Dir (map (\<lambda>(k, v). if k = c then (k, put_node v cs n) else (k, v)) es)
      | None \<Rightarrow> if cs = [] then Dir (es @ [(c, n)]) else Dir es)"
| "put_node other (c # cs) n = other"

fun remove_node :: "node \<Rightarrow> string list \<Rightarrow> node" where
  "remove_node old [] = old"
| "remove_node (Dir es) [c] = Dir (filter (\<lambda>(k, v). k \<noteq> c) es)"
| "remove_node (Dir es) (c # cs) =
     Dir (map (\<lambda>(k, v). if k = c then (k, remove_node v cs) else (k, v)) es)"
| "remove_node other (c # cs) = other"

text \<open>
  Path resolution, as the kernel does it: component by component from a current
  directory, \<^verbatim>\<open>.\<close> and empty components skipped, \<^verbatim>\<open>..\<close> going up, a symbolic link
  replaced by its target, at most forty links followed. The mode says what the last
  component may be: \<open>Follow\<close> wants an existing node behind every link (\<^verbatim>\<open>stat\<close>),
  \<open>NoFollow\<close> stops at a last component that is a link or is missing (\<^verbatim>\<open>lstat\<close>,
  \<^verbatim>\<open>mkdir\<close>, \<^verbatim>\<open>symlink\<close>), \<open>Create\<close> follows links and accepts a missing last
  component (\<^verbatim>\<open>open\<close> for writing). The result is the canonical path of the place.
\<close>

datatype rmode = Follow | NoFollow | Create

definition absolute :: "string \<Rightarrow> bool" where
  "absolute p = py_startswith p ''/''"

fun resolve :: "node \<Rightarrow> rmode \<Rightarrow> nat \<Rightarrow> string list \<Rightarrow> string list \<Rightarrow> exn + string list" where
  "resolve root md fuel cur [] = Inr cur"
| "resolve root md fuel cur (c # cs) =
     (case lookup_node root cur of
        Some (Dir es) \<Rightarrow>
          if c = [] \<or> c = ''.'' then resolve root md fuel cur cs
          else if c = ''..'' then resolve root md fuel (butlast cur) cs
          else (case map_of es c of
                  None \<Rightarrow>
                    if cs = [] \<and> md \<noteq> Follow then Inr (cur @ [c])
                    else Inl FileNotFoundError
                | Some (Link t) \<Rightarrow>
                    if cs = [] \<and> md = NoFollow then Inr (cur @ [c])
                    else (case fuel of
                            0 \<Rightarrow> Inl TooManyLinks
                          | Suc f \<Rightarrow>
                              if t = [] then Inl FileNotFoundError
                              else resolve root md f (if absolute t then [] else cur)
                                     (py_split CHR ''/'' t @ cs))
                | Some _ \<Rightarrow> resolve root md fuel (cur @ [c]) cs)
      | Some _ \<Rightarrow> Inl NotADirectoryError
      | None \<Rightarrow> Inl FileNotFoundError)"


section \<open>The process state and the \<^verbatim>\<open>os\<close> module\<close>

text \<open>
  What \<^verbatim>\<open>main\<close> prints on \<^verbatim>\<open>stderr\<close>: the text \<^verbatim>\<open>Error during download: \<close>
  followed by \<^verbatim>\<open>str(e)\<close>. The text of \<^verbatim>\<open>str(e)\<close> is the library's (for a
  \<^verbatim>\<open>tarfile.ReadError\<close> it has several lines); a message is kept as the exception it
  reports.
\<close>

datatype report = Error_during_download exn

text \<open>
  What a run reads and changes: the file tree, the permission bits of its files and
  the working directory (a canonical path), the network (what a server answers for a
  URL: a failure, or a status and a body), the module's global \<^verbatim>\<open>ARCHIVES\<close> (a
  \<^verbatim>\<open>dict\<close> in insertion order), what is printed on \<^verbatim>\<open>stdout\<close> (one string for each
  \<^verbatim>\<open>print\<close>) and on \<^verbatim>\<open>stderr\<close>, and the URLs requested so far.
\<close>

record world =
  root :: node
  modes :: "string list \<Rightarrow> perm"
  cwd :: "string list"
  net :: "string \<Rightarrow> exn + nat \<times> content"
  ARCHIVES :: "(string \<times> string list) list"
  stdout :: "string list"
  stderr :: "report list"
  requests :: "string list"

text \<open>
  A statement takes the state and returns the new one, with the exception it raised if
  it raised one.
\<close>

type_synonym action = "world \<Rightarrow> exn option \<times> world"

definition skip :: action where
  "skip w = (None, w)"

definition raise :: "exn \<Rightarrow> action" where
  "raise e w = (Some e, w)"

definition seq :: "action \<Rightarrow> action \<Rightarrow> action" where
  "seq f g w = (case f w of (None, w1) \<Rightarrow> g w1 | (Some e, w1) \<Rightarrow> (Some e, w1))"

fun for_each :: "'a list \<Rightarrow> ('a \<Rightarrow> action) \<Rightarrow> action" where
  "for_each [] body w = (None, w)"
| "for_each (x # xs) body w =
     (case body x w of (None, w1) \<Rightarrow> for_each xs body w1 | (Some e, w1) \<Rightarrow> (Some e, w1))"

text \<open>An expression that may raise, evaluated in the current state, and its use.\<close>

definition reading :: "(world \<Rightarrow> exn + 'a) \<Rightarrow> ('a \<Rightarrow> action) \<Rightarrow> action" where
  "reading m k w = (case m w of Inl e \<Rightarrow> (Some e, w) | Inr x \<Rightarrow> k x w)"

definition compute :: "exn + 'a \<Rightarrow> ('a \<Rightarrow> action) \<Rightarrow> action" where
  "compute m k = reading (\<lambda>w. m) k"

text \<open>\<^verbatim>\<open>try: f  except FileExistsError: pass\<close>.\<close>

definition except_FileExistsError_pass :: "action \<Rightarrow> action" where
  "except_FileExistsError_pass f w =
     (case f w of
        (Some e, w1) \<Rightarrow> if e = FileExistsError then (None, w1) else (Some e, w1)
      | (None, w1) \<Rightarrow> (None, w1))"

definition print :: "string \<Rightarrow> action" where
  "print s w = (None, w\<lparr>stdout := stdout w @ [s]\<rparr>)"

subsection \<open>Paths\<close>

definition os_getcwd :: "world \<Rightarrow> string" where
  "os_getcwd w = (if cwd w = [] then ''/'' else concat (map (\<lambda>c. ''/'' @ c) (cwd w)))"

definition resolve_path :: "world \<Rightarrow> rmode \<Rightarrow> string \<Rightarrow> exn + string list" where
  "resolve_path w md p =
     (if p = [] then Inl FileNotFoundError
      else resolve (root w) md 40 (if absolute p then [] else cwd w) (py_split CHR ''/'' p))"

definition node_at :: "world \<Rightarrow> rmode \<Rightarrow> string \<Rightarrow> exn + node" where
  "node_at w md p =
     ebind (resolve_path w md p)
       (\<lambda>q. case lookup_node (root w) q of None \<Rightarrow> Inl FileNotFoundError | Some n \<Rightarrow> Inr n)"

definition os_path_exists :: "world \<Rightarrow> string \<Rightarrow> bool" where
  "os_path_exists w p = (case node_at w Follow p of Inr _ \<Rightarrow> True | Inl _ \<Rightarrow> False)"

definition os_path_lexists :: "world \<Rightarrow> string \<Rightarrow> bool" where
  "os_path_lexists w p = (case node_at w NoFollow p of Inr _ \<Rightarrow> True | Inl _ \<Rightarrow> False)"

definition os_path_isdir :: "world \<Rightarrow> string \<Rightarrow> bool" where
  "os_path_isdir w p = (case node_at w Follow p of Inr (Dir _) \<Rightarrow> True | _ \<Rightarrow> False)"

definition os_path_isfile :: "world \<Rightarrow> string \<Rightarrow> bool" where
  "os_path_isfile w p = (case node_at w Follow p of Inr (File _) \<Rightarrow> True | _ \<Rightarrow> False)"

definition os_path_islink :: "world \<Rightarrow> string \<Rightarrow> bool" where
  "os_path_islink w p = (case node_at w NoFollow p of Inr (Link _) \<Rightarrow> True | _ \<Rightarrow> False)"

definition rstrip_slash :: "string \<Rightarrow> string" where
  "rstrip_slash p = rev (dropWhile (\<lambda>c. c = CHR ''/'') (rev p))"

text \<open>\<^verbatim>\<open>os.path.split\<close>, \<^verbatim>\<open>os.path.dirname\<close> and \<^verbatim>\<open>os.path.commonprefix\<close>.\<close>

definition os_path_split :: "string \<Rightarrow> string \<times> string" where
  "os_path_split p =
     (let tail = basename p; head = take (length p - length tail) p
      in (if head \<noteq> [] \<and> \<not> list_all (\<lambda>c. c = CHR ''/'') head then rstrip_slash head else head,
          tail))"

definition dirname :: "string \<Rightarrow> string" where
  "dirname p = fst (os_path_split p)"

fun common_prefix :: "string \<Rightarrow> string \<Rightarrow> string" where
  "common_prefix (x # xs) (y # ys) = (if x = y then x # common_prefix xs ys else [])"
| "common_prefix _ _ = []"

definition commonprefix :: "string list \<Rightarrow> string" where
  "commonprefix m = (case m of [] \<Rightarrow> [] | x # xs \<Rightarrow> fold common_prefix xs x)"

subsection \<open>Reading and changing files\<close>

text \<open>
  \<^verbatim>\<open>st_mode\<close> carries the file type above the permission bits (\<^verbatim>\<open>S_IFREG\<close> is
  \<^verbatim>\<open>0o100000\<close>, \<^verbatim>\<open>S_IFDIR\<close> is \<^verbatim>\<open>0o040000\<close>); \<^verbatim>\<open>chmod\<close> keeps the low twelve bits
  of the mode it is given. \<^verbatim>\<open>stat.S_IWRITE\<close> is \<^verbatim>\<open>0o200\<close>, which is 128.
\<close>

definition S_IWRITE :: "32 word" where
  "S_IWRITE = 128"

definition st_mode :: "perm \<Rightarrow> node \<Rightarrow> 32 word" where
  "st_mode m n =
     (case n of
        File _ \<Rightarrow> 32768 OR ucast m
      | Dir _ \<Rightarrow> 16384 OR 493
      | Link _ \<Rightarrow> 40960 OR 511)"

definition os_stat :: "string \<Rightarrow> world \<Rightarrow> exn + 32 word" where
  "os_stat p w =
     ebind (resolve_path w Follow p)
       (\<lambda>q. case lookup_node (root w) q of
              None \<Rightarrow> Inl FileNotFoundError
            | Some n \<Rightarrow> Inr (st_mode (modes w q) n))"

definition os_chmod :: "string \<Rightarrow> 32 word \<Rightarrow> action" where
  "os_chmod p mode w =
     (case resolve_path w Follow p of
        Inl e \<Rightarrow> (Some e, w)
      | Inr q \<Rightarrow>
          (case lookup_node (root w) q of
             None \<Rightarrow> (Some FileNotFoundError, w)
           | Some (File _) \<Rightarrow> (None, w\<lparr>modes := (modes w)(q := ucast mode)\<rparr>)
           | Some _ \<Rightarrow> (None, w)))"

text \<open>
  \<^verbatim>\<open>open(p, "wb")\<close> followed by one \<^verbatim>\<open>write\<close>: a new file gets the permissions
  \<^verbatim>\<open>0o644\<close> (420; a umask of \<^verbatim>\<open>0o022\<close>), an existing one keeps its own.
\<close>

definition write_file :: "string \<Rightarrow> content \<Rightarrow> action" where
  "write_file p c w =
     (case resolve_path w Create p of
        Inl e \<Rightarrow> (Some e, w)
      | Inr q \<Rightarrow>
          (case lookup_node (root w) q of
             None \<Rightarrow> (None, w\<lparr>root := put_node (root w) q (File c),
                                  modes := (modes w)(q := 420)\<rparr>)
           | Some (File _) \<Rightarrow> (None, w\<lparr>root := put_node (root w) q (File c)\<rparr>)
           | Some (Dir _) \<Rightarrow> (Some IsADirectoryError, w)
           | Some (Link _) \<Rightarrow> (Some TooManyLinks, w)))"

definition read_file :: "string \<Rightarrow> world \<Rightarrow> exn + content" where
  "read_file p w =
     ebind (node_at w Follow p)
       (\<lambda>n. case n of File c \<Rightarrow> Inr c | Dir _ \<Rightarrow> Inl IsADirectoryError
             | Link _ \<Rightarrow> Inl TooManyLinks)"

definition os_mkdir :: "string \<Rightarrow> action" where
  "os_mkdir p w =
     (case resolve_path w NoFollow (if rstrip_slash p = [] then p else rstrip_slash p) of
        Inl e \<Rightarrow> (Some e, w)
      | Inr q \<Rightarrow>
          (case lookup_node (root w) q of
             None \<Rightarrow> (None, w\<lparr>root := put_node (root w) q (Dir [])\<rparr>)
           | Some _ \<Rightarrow> (Some FileExistsError, w)))"

definition os_symlink :: "string \<Rightarrow> string \<Rightarrow> action" where
  "os_symlink target p w =
     (case resolve_path w NoFollow p of
        Inl e \<Rightarrow> (Some e, w)
      | Inr q \<Rightarrow>
          (case lookup_node (root w) q of
             None \<Rightarrow> (None, w\<lparr>root := put_node (root w) q (Link target)\<rparr>)
           | Some _ \<Rightarrow> (Some FileExistsError, w)))"

definition os_unlink :: "string \<Rightarrow> action" where
  "os_unlink p w =
     (case resolve_path w NoFollow p of
        Inl e \<Rightarrow> (Some e, w)
      | Inr q \<Rightarrow>
          (case lookup_node (root w) q of
             None \<Rightarrow> (Some FileNotFoundError, w)
           | Some (Dir _) \<Rightarrow> (Some IsADirectoryError, w)
           | Some _ \<Rightarrow> (None, w\<lparr>root := remove_node (root w) q\<rparr>)))"

definition os_scandir :: "string \<Rightarrow> world \<Rightarrow> exn + (string \<times> node) list" where
  "os_scandir p w =
     ebind (node_at w Follow p)
       (\<lambda>n. case n of Dir es \<Rightarrow> Inr es | _ \<Rightarrow> Inl NotADirectoryError)"

definition os_listdir :: "string \<Rightarrow> world \<Rightarrow> exn + string list" where
  "os_listdir p w = ebind (os_scandir p w) (\<lambda>es. Inr (map fst es))"


text \<open>\<^verbatim>\<open>os.makedirs(name, exist_ok=...)\<close>, as the standard library defines it.\<close>

definition makedirs_parts :: "string \<Rightarrow> string \<times> string" where
  "makedirs_parts name =
     (let (head, tail) = os_path_split name
      in if tail = [] then os_path_split head else (head, tail))"

function os_makedirs :: "bool \<Rightarrow> string \<Rightarrow> action" where
  "os_makedirs exist_ok name w =
     (if fst (makedirs_parts name) \<noteq> [] \<and> snd (makedirs_parts name) \<noteq> []
         \<and> \<not> os_path_exists w (fst (makedirs_parts name))
      then (case except_FileExistsError_pass
                   (os_makedirs exist_ok (fst (makedirs_parts name))) w of
              (Some e, w1) \<Rightarrow> (Some e, w1)
            | (None, w1) \<Rightarrow>
                if snd (makedirs_parts name) = ''.'' then (None, w1)
                else (case os_mkdir name w1 of
                        (Some e, w2) \<Rightarrow>
                          if \<not> exist_ok \<or> \<not> os_path_isdir w2 name then (Some e, w2)
                          else (None, w2)
                      | (None, w2) \<Rightarrow> (None, w2)))
      else (case os_mkdir name w of
              (Some e, w2) \<Rightarrow>
                if \<not> exist_ok \<or> \<not> os_path_isdir w2 name then (Some e, w2) else (None, w2)
            | (None, w2) \<Rightarrow> (None, w2)))"
  by pat_completeness auto
termination
proof (relation "measure (\<lambda>(ok, name, w). length name)")
  show "wf (measure (\<lambda>(ok, name, w). length name))" by simp
next
  fix exist_ok :: bool and name :: string and w x :: world
  assume a: "fst (makedirs_parts name) \<noteq> [] \<and> snd (makedirs_parts name) \<noteq> []
         \<and> \<not> os_path_exists w (fst (makedirs_parts name))"
  have last_len: "length (last (py_split CHR ''/'' p)) \<le> length p" for p :: string
    by (induction p) (auto split: list.splits)
  have rs: "length (rstrip_slash p) \<le> length p" for p :: string
    unfolding rstrip_slash_def
    by (metis length_dropWhile_le length_rev)
  have hd_len: "length (fst (os_path_split p)) + length (snd (os_path_split p)) \<le> length p"
    for p :: string
    using last_len [of p] rs [of "take (length p - length (basename p)) p"]
    by (auto simp: os_path_split_def Let_def basename_def)
  have "length (fst (makedirs_parts name)) + length (snd (makedirs_parts name)) \<le> length name"
    using hd_len [of name] hd_len [of "fst (os_path_split name)"]
    by (auto simp: makedirs_parts_def split: prod.splits)
  with a have "length (fst (makedirs_parts name)) < length name"
    by (cases "snd (makedirs_parts name)") auto
  then show "((exist_ok, fst (makedirs_parts name), x), (exist_ok, name, w))
      \<in> measure (\<lambda>(ok, name, w). length name)"
    by simp
qed

declare os_makedirs.simps [simp del]

text \<open>
  \<^verbatim>\<open>os.rmdir(p)\<close>: the directory in front of the last component is resolved; a last
  component \<^verbatim>\<open>.\<close> is refused with \<^verbatim>\<open>EINVAL\<close> and \<^verbatim>\<open>..\<close> with \<^verbatim>\<open>ENOTEMPTY\<close>; any
  other must name an empty directory, and a symbolic link is not followed.
\<close>

definition os_rmdir :: "string \<Rightarrow> action" where
  "os_rmdir p w =
     (let comps = filter (\<lambda>c. c \<noteq> []) (py_split CHR ''/'' p);
          start = (if absolute p then [] else cwd w)
      in if p = [] then (Some FileNotFoundError, w)
         else if comps = [] then (Some DeviceBusy, w)
         else (case (if butlast comps = [] then Inr start
                     else ebind (resolve (root w) Follow 40 start (butlast comps))
                            (\<lambda>q. case lookup_node (root w) q of
                                   None \<Rightarrow> Inl FileNotFoundError
                                 | Some (Dir _) \<Rightarrow> Inr q
                                 | Some _ \<Rightarrow> Inl NotADirectoryError)) of
                 Inl e \<Rightarrow> (Some e, w)
               | Inr q \<Rightarrow>
                   if last comps = ''.'' then (Some InvalidArgument, w)
                   else if last comps = ''..'' then (Some DirectoryNotEmpty, w)
                   else (case lookup_node (root w) (q @ [last comps]) of
                           None \<Rightarrow> (Some FileNotFoundError, w)
                         | Some (Dir []) \<Rightarrow>
                             (None, w\<lparr>root := remove_node (root w) (q @ [last comps])\<rparr>)
                         | Some (Dir _) \<Rightarrow> (Some DirectoryNotEmpty, w)
                         | Some _ \<Rightarrow> (Some NotADirectoryError, w))))"

text \<open>
  \<^verbatim>\<open>shutil.rmtree(p)\<close>: \<^verbatim>\<open>lstat\<close> and \<^verbatim>\<open>open\<close> of \<^verbatim>\<open>p\<close>, which must give the same
  directory (a symbolic link is refused); everything below the directory is removed;
  then \<^verbatim>\<open>os.rmdir(p)\<close>, whose exception is raised after the directory has been emptied.
\<close>

definition shutil_rmtree :: "string \<Rightarrow> action" where
  "shutil_rmtree p w =
     (case resolve_path w NoFollow p of
        Inl e \<Rightarrow> (Some e, w)
      | Inr q \<Rightarrow>
          (case lookup_node (root w) q of
             None \<Rightarrow> (Some FileNotFoundError, w)
           | Some (Link _) \<Rightarrow>
               (case node_at w Follow p of
                  Inl e \<Rightarrow> (Some e, w)
                | Inr _ \<Rightarrow> (Some RmtreeOnSymlink, w))
           | Some (File _) \<Rightarrow> (Some NotADirectoryError, w)
           | Some (Dir _) \<Rightarrow> os_rmdir p (w\<lparr>root := put_node (root w) q (Dir [])\<rparr>)))"

text \<open>
  \<^verbatim>\<open>shutil.copy2(src, dst)\<close>: into \<^verbatim>\<open>dst\<close> when that is a directory; the content and
  the permission bits are copied, through a symbolic link at the destination.
\<close>

definition shutil_copy2 :: "string \<Rightarrow> string \<Rightarrow> action" where
  "shutil_copy2 src dst w =
     (let dst' = (if os_path_isdir w dst then join dst (basename src) else dst)
      in if resolve_path w Follow src = resolve_path w Follow dst' \<and> os_path_exists w src
         then (Some SameFileError, w)
         else reading (read_file src) (\<lambda>c.
              seq (write_file dst' c)
                  (reading (os_stat src) (\<lambda>mode. os_chmod dst' mode))) w)"

text \<open>
  \<^verbatim>\<open>shutil.copytree(src, dst, symlinks=1, dirs_exist_ok=1, ignore_dangling_symlinks=1)\<close>.
  A symbolic link of the source is created anew at the destination (\<^verbatim>\<open>os.symlink\<close>
  raises \<^verbatim>\<open>FileExistsError\<close> on a name that exists); a directory is copied into the
  directory of that name, made when missing; a file is copied with \<^verbatim>\<open>copy2\<close>. An
  \<^verbatim>\<open>OSError\<close> of one entry is collected and the copy goes on; the collected errors are
  raised at the end as one \<^verbatim>\<open>shutil.Error\<close>. The entries of the source are those
  read when its copy starts (the destination is taken not to lie inside the source).
\<close>

fun copy_node :: "node \<Rightarrow> string \<Rightarrow> string \<Rightarrow> action" where
  "copy_node (Link t) src dst w = os_symlink t dst w"
| "copy_node (File c) src dst w = shutil_copy2 src dst w"
| "copy_node (Dir es) src dst w =
     (case os_makedirs True dst w of
        (Some e, w1) \<Rightarrow> (Some e, w1)
      | (None, w1) \<Rightarrow>
          (case fold (\<lambda>(name, n) (stop, errors, w').
                        if stop \<noteq> None then (stop, errors, w')
                        else (case copy_node n (join src name) (join dst name) w' of
                                (None, w'') \<Rightarrow> (None, errors, w'')
                              | (Some (ShutilError errs), w'') \<Rightarrow> (None, errors @ errs, w'')
                              | (Some e, w'') \<Rightarrow>
                                  if is_OSError e then (None, errors @ [e], w'')
                                  else (Some e, errors, w'')))
                  es (None, [], w1) of
             (Some e, errors, w2) \<Rightarrow> (Some e, w2)
           | (None, errors, w2) \<Rightarrow>
               if errors \<noteq> [] then (Some (ShutilError errors), w2) else (None, w2)))"

definition shutil_copytree :: "string \<Rightarrow> string \<Rightarrow> action" where
  "shutil_copytree src dst = reading (os_scandir src) (\<lambda>es. copy_node (Dir es) src dst)"


subsection \<open>\<^verbatim>\<open>os.walk\<close>, archives and the network\<close>

text \<open>
  \<^verbatim>\<open>os.walk(top)\<close>: for the directory and each directory below it, top down, the names
  of its entries that are directories (a link to a directory counts, and is not walked
  into) and the names of the others. A \<^verbatim>\<open>top\<close> that cannot be listed gives nothing.
\<close>

definition entry_is_dir :: "world \<Rightarrow> string \<Rightarrow> string \<times> node \<Rightarrow> bool" where
  "entry_is_dir w topd e =
     (case snd e of
        Dir _ \<Rightarrow> True
      | Link _ \<Rightarrow> os_path_isdir w (join topd (fst e))
      | File _ \<Rightarrow> False)"

fun walk_node :: "world \<Rightarrow> string \<Rightarrow> node \<Rightarrow> (string \<times> string list \<times> string list) list" where
  "walk_node w topd (Dir es) =
     (topd, map fst (filter (entry_is_dir w topd) es),
           map fst (filter (\<lambda>e. \<not> entry_is_dir w topd e) es))
     # concat (map (\<lambda>(name, n). case n of Dir _ \<Rightarrow> walk_node w (join topd name) n | _ \<Rightarrow> []) es)"
| "walk_node w topd _ = []"

declare walk_node.simps [simp del]

definition os_walk :: "string \<Rightarrow> world \<Rightarrow> (string \<times> string list \<times> string list) list" where
  "os_walk topd w =
     (case node_at w Follow topd of Inr (Dir es) \<Rightarrow> walk_node w topd (Dir es) | _ \<Rightarrow> [])"

text \<open>
  \<^verbatim>\<open>tarfile.open(p)\<close> with \<^verbatim>\<open>getnames\<close> and \<^verbatim>\<open>extractall\<close>, and
  \<^verbatim>\<open>zipfile.ZipFile(p)\<close> with \<^verbatim>\<open>namelist\<close> and \<^verbatim>\<open>extractall\<close>, into the working
  directory, member by member, in a simplified form: the directories above a member are
  made when missing, a file member is written (with its permission bits, for tar), a
  directory member is made, a link member of a tar archive replaces what is there.
\<close>

definition tarfile_open :: "string \<Rightarrow> world \<Rightarrow> exn + (string \<times> member) list" where
  "tarfile_open p w =
     ebind (read_file p w) (\<lambda>c. case c of TarArchive ms \<Rightarrow> Inr ms | _ \<Rightarrow> Inl ReadError)"

definition zipfile_open :: "string \<Rightarrow> world \<Rightarrow> exn + (string \<times> member) list" where
  "zipfile_open p w =
     ebind (read_file p w) (\<lambda>c. case c of ZipArchive ms \<Rightarrow> Inr ms | _ \<Rightarrow> Inl BadZipFile)"

definition ensure_upperdirs :: "string \<Rightarrow> action" where
  "ensure_upperdirs targetpath w =
     (let upperdirs = dirname targetpath
      in if upperdirs \<noteq> [] \<and> \<not> os_path_exists w upperdirs then os_makedirs True upperdirs w
         else (None, w))"

definition tar_extract :: "string \<times> member \<Rightarrow> action" where
  "tar_extract e =
     (let targetpath = join ''.'' (fst e)
      in seq (ensure_upperdirs targetpath)
           (case snd e of
              MFile p data \<Rightarrow>
                seq (write_file targetpath (Bytes data)) (os_chmod targetpath (ucast p))
            | MDir \<Rightarrow>
                (\<lambda>w. case os_mkdir targetpath w of
                        (Some x, w1) \<Rightarrow>
                          if x = FileExistsError \<and> os_path_isdir w1 targetpath then (None, w1)
                          else (Some x, w1)
                      | (None, w1) \<Rightarrow> (None, w1))
            | MLink t \<Rightarrow>
                seq (\<lambda>w. if os_path_lexists w targetpath then os_unlink targetpath w
                         else (None, w))
                    (os_symlink t targetpath)))"

text \<open>\<^verbatim>\<open>sep.join(parts)\<close>.\<close>

fun py_join :: "string \<Rightarrow> string list \<Rightarrow> string" where
  "py_join sep [] = []"
| "py_join sep [x] = x"
| "py_join sep (x # xs) = x @ sep @ py_join sep xs"

definition zip_arcname :: "string \<Rightarrow> string" where
  "zip_arcname name =
     py_join ''/'' (filter (\<lambda>x. x \<noteq> [] \<and> x \<noteq> ''.'' \<and> x \<noteq> ''..'') (py_split CHR ''/'' name))"

definition zip_extract :: "string \<times> member \<Rightarrow> action" where
  "zip_extract e w =
     (let targetpath = join (os_getcwd w) (zip_arcname (fst e))
      in seq (ensure_upperdirs targetpath)
           (if py_endswith (fst e) ''/''
            then (\<lambda>w1. if \<not> os_path_isdir w1 targetpath then os_mkdir targetpath w1
                       else (None, w1))
            else write_file targetpath
                   (Bytes (case snd e of MFile p data \<Rightarrow> data | MDir \<Rightarrow> [] | MLink t \<Rightarrow> t)))
           w)"

text \<open>
  \<^verbatim>\<open>urlopen(url)\<close>: the request is recorded. The network either fails (\<open>Inl\<close>, an
  \<^verbatim>\<open>URLError\<close> for instance) or gives the status and the body of the last response,
  after the redirections that the library follows. The library hands out a response
  whose status is from 200 to 299, and raises \<^verbatim>\<open>HTTPError\<close> for every other status.
\<close>

definition urlopen :: "string \<Rightarrow> (nat \<times> content \<Rightarrow> action) \<Rightarrow> action" where
  "urlopen url k w =
     (case net w url of
        Inl e \<Rightarrow> (Some e, w\<lparr>requests := requests w @ [url]\<rparr>)
      | Inr (status, body) \<Rightarrow>
          if 200 \<le> status \<and> status < 300
          then k (status, body) (w\<lparr>requests := requests w @ [url]\<rparr>)
          else (Some (HTTPError status), w\<lparr>requests := requests w @ [url]\<rparr>))"

text \<open>
  \<^verbatim>\<open>json.loads\<close> of the bytes read: \<open>ValueError\<close> stands for its two subclasses that
  the call raises, \<^verbatim>\<open>JSONDecodeError\<close> for text that is not JSON and
  \<^verbatim>\<open>UnicodeDecodeError\<close> for bytes that are not text.
\<close>

definition json_loads :: "content \<Rightarrow> exn + json" where
  "json_loads c = (case c of JsonDoc j \<Rightarrow> Inr j | _ \<Rightarrow> Inl ValueError)"

text \<open>Operations on the global \<^verbatim>\<open>ARCHIVES\<close>.\<close>

definition archives_init :: "string \<Rightarrow> action" where
  "archives_init platform w =
     (if platform \<notin> set (map fst (ARCHIVES w))
      then (None, w\<lparr>ARCHIVES := ARCHIVES w @ [(platform, [])]\<rparr>)
      else (None, w))"

definition archives_append :: "string \<Rightarrow> string \<Rightarrow> action" where
  "archives_append platform x w =
     (if platform \<in> set (map fst (ARCHIVES w))
      then (None, w\<lparr>ARCHIVES :=
              map (\<lambda>(k, v). if k = platform then (k, v @ [x]) else (k, v)) (ARCHIVES w)\<rparr>)
      else (Some KeyError, w))"

definition archives_of :: "world \<Rightarrow> string \<Rightarrow> string list" where
  "archives_of w platform = (case map_of (ARCHIVES w) platform of None \<Rightarrow> [] | Some v \<Rightarrow> v)"


section \<open>The functions of \<^verbatim>\<open>download_nvidia.py\<close>\<close>

definition DOMAIN :: string where
  "DOMAIN = ''https://developer.download.nvidia.com''"

definition nl :: string where
  "nl = [CHR 0x0A]"

subsection \<open>\<^verbatim>\<open>fetch_file\<close>\<close>

definition fetch_file :: "string \<Rightarrow> string \<Rightarrow> action" where
  "fetch_file full_path filename =
     urlopen full_path (\<lambda>(status, body).
       if status \<noteq> 200 then print (''  -> Failed: '' @ filename)
       else seq (print ('':: Fetching: '' @ full_path))
           (seq (write_file filename body)
                (print (''  -> Wrote: '' @ filename))))"

subsection \<open>\<^verbatim>\<open>fix_permissions\<close>\<close>

definition fix_permissions :: "string \<Rightarrow> action" where
  "fix_permissions directory w =
     for_each (os_walk directory w)
       (\<lambda>(rt, dirs, files).
          for_each files
            (\<lambda>file. let filename = join rt file
                    in reading (os_stat filename)
                         (\<lambda>mode. os_chmod filename (mode OR S_IWRITE))))
       w"

subsection \<open>\<^verbatim>\<open>flatten_tree\<close>\<close>

text \<open>\<^verbatim>\<open>if tag:\<close> holds for a tag that is a string and is not empty.\<close>

definition truthy :: "string option \<Rightarrow> bool" where
  "truthy v = (case v of None \<Rightarrow> False | Some s \<Rightarrow> s \<noteq> [])"

definition flatten_dest :: "string \<Rightarrow> string option \<Rightarrow> string" where
  "flatten_dest dest tag =
     (case tag of None \<Rightarrow> dest | Some t \<Rightarrow> if truthy tag then join dest t else dest)"

definition flatten_tree :: "string \<Rightarrow> string \<Rightarrow> string option \<Rightarrow> action" where
  "flatten_tree src dest tag =
     seq (except_FileExistsError_pass (shutil_copytree src (flatten_dest dest tag)))
         (shutil_rmtree src)"

subsection \<open>\<^verbatim>\<open>parse_artifact\<close>\<close>

definition relative_path_of ::
  "json \<Rightarrow> string \<Rightarrow> string \<Rightarrow> string option \<Rightarrow> exn + string" where
  "relative_path_of manifest component platform variant =
     ebind (py_getitem manifest component) (\<lambda>c.
     ebind (py_getitem c platform) (\<lambda>p.
     ebind (case variant of
              None \<Rightarrow> Inr p
            | Some v \<Rightarrow> if truthy variant then py_getitem p v else Inr p) (\<lambda>a.
     ebind (py_getitem a ''relative_path'') py_str_operand)))"

definition parse_artifact ::
  "string \<Rightarrow> json \<Rightarrow> string \<Rightarrow> string \<Rightarrow> bool \<Rightarrow> string option \<Rightarrow> action" where
  "parse_artifact parent manifest component platform retrieve variant w =
     compute (relative_path_of manifest component platform variant) (\<lambda>rel w.
       let full_path = parent @ rel;
           filename = basename full_path;
           pwd = join3 (os_getcwd w) component platform
       in if retrieve
             \<and> \<not> os_path_exists w filename
             \<and> \<not> os_path_exists w full_path
             \<and> \<not> os_path_exists w (parent @ filename)
             \<and> \<not> os_path_exists w (pwd @ filename)
          then seq (fetch_file full_path filename) (archives_append platform filename) w
          else if os_path_exists w filename
          then seq (print (''  -> Found: '' @ filename)) (archives_append platform filename) w
          else if os_path_exists w full_path
          then seq (print (''  -> Found: '' @ full_path)) (archives_append platform full_path) w
          else if os_path_exists w (join parent filename)
          then seq (print (''  -> Found: '' @ join parent filename))
                   (archives_append platform (join parent filename)) w
          else if os_path_exists w (join pwd filename)
          then seq (print (''  -> Found: '' @ join pwd filename))
                   (archives_append platform (join pwd filename)) w
          else seq (print (''Parent: '' @ join pwd filename))
                   (print (''  -> Artifact: '' @ filename)) w) w"

subsection \<open>\<^verbatim>\<open>fetch_action\<close>\<close>

text \<open>The body of the loop over the variant keys of one platform.\<close>

definition variant_step ::
  "string \<Rightarrow> json \<Rightarrow> string \<Rightarrow> string \<Rightarrow> string option \<Rightarrow> bool \<Rightarrow> string \<Rightarrow> action" where
  "variant_step parent manifest component platform cuda_filter retrieve variant =
     (if cuda_filter \<noteq> None \<and> Some variant \<noteq> cuda_filter
      then print (''  -> Skipping variant: '' @ variant)
      else parse_artifact parent manifest component platform retrieve (Some variant))"

text \<open>
  What is done with a platform entry that is not a string and passes the platform
  filter: the resolution of its artifact, or of the artifact of each of its variants.
\<close>

definition resolve_platform ::
  "string \<Rightarrow> json \<Rightarrow> string \<Rightarrow> string \<Rightarrow> string option \<Rightarrow> bool \<Rightarrow> json \<Rightarrow> action" where
  "resolve_platform parent manifest component platform cuda_filter retrieve entry =
     compute (py_in ''relative_path'' entry) (\<lambda>flat.
       if \<not> flat
       then compute (py_keys entry) (\<lambda>variants.
              for_each variants
                (variant_step parent manifest component platform cuda_filter retrieve))
       else parse_artifact parent manifest component platform retrieve None)"

text \<open>The body of the loop over the keys of one component.\<close>

definition platform_step ::
  "string \<Rightarrow> json \<Rightarrow> string \<Rightarrow> string option \<Rightarrow> string option \<Rightarrow> bool \<Rightarrow> string \<Rightarrow> action"
  where
  "platform_step parent manifest component platform_filter cuda_filter retrieve platform =
     (if py_in_str ''variant'' platform then skip
      else seq (archives_init platform)
             (compute (ebind (py_getitem manifest component) (\<lambda>c. py_getitem c platform))
                (\<lambda>entry.
                   if \<not> is_str entry
                   then (if platform_filter \<noteq> None \<and> Some platform \<noteq> platform_filter
                            \<and> platform \<noteq> ''source''
                         then print (''  -> Skipping platform: '' @ platform)
                         else resolve_platform parent manifest component platform
                                cuda_filter retrieve entry)
                   else skip)))"

text \<open>The body of the loop over the components of the manifest.\<close>

definition component_step ::
  "string \<Rightarrow> json \<Rightarrow> string option \<Rightarrow> string option \<Rightarrow> string option \<Rightarrow> bool \<Rightarrow> string \<Rightarrow> action"
  where
  "component_step parent manifest component_filter platform_filter cuda_filter retrieve
       component =
     compute (py_getitem manifest component) (\<lambda>entry.
     compute (py_in ''name'' entry) (\<lambda>has_name.
       if \<not> has_name then skip
       else if component_filter \<noteq> None \<and> Some component \<noteq> component_filter then skip
       else compute (ebind (py_getitem entry ''name'') py_str_operand) (\<lambda>name.
            compute (ebind (py_getitem entry ''version'') py_str_operand) (\<lambda>version.
              seq (print (nl @ name @ '': '' @ version))
                  (compute (py_keys entry) (\<lambda>platforms.
                     for_each platforms
                       (platform_step parent manifest component platform_filter
                          cuda_filter retrieve)))))))"

definition fetch_action ::
  "string \<Rightarrow> json \<Rightarrow> string option \<Rightarrow> string option \<Rightarrow> string option \<Rightarrow> bool \<Rightarrow> action" where
  "fetch_action parent manifest component_filter platform_filter cuda_filter retrieve =
     compute (py_keys manifest) (\<lambda>components.
       for_each components
         (component_step parent manifest component_filter platform_filter cuda_filter
            retrieve))"

subsection \<open>\<^verbatim>\<open>post_action\<close>\<close>

text \<open>
  \<^verbatim>\<open>archive.split("-")[3].split("_")[1]\<close> inside \<^verbatim>\<open>try\<close>, with \<^verbatim>\<open>None\<close> for
  any exception.
\<close>

definition binTag_of :: "string \<Rightarrow> string option" where
  "binTag_of archive =
     (case ebind (py_index (py_split CHR ''-'' archive) 3)
             (\<lambda>seg. py_index (py_split CHR ''_'' seg) 1) of
        Inl _ \<Rightarrow> None
      | Inr t \<Rightarrow> Some t)"

text \<open>The two branches of the dispatch on the archive's name, and the dispatch.\<close>

definition after_extract :: "string \<Rightarrow> bool \<Rightarrow> string \<Rightarrow> string \<Rightarrow> string option \<Rightarrow> action" where
  "after_extract output_dir collapse platform topdir binTag =
     seq (fix_permissions topdir)
         (if collapse
          then seq (flatten_tree topdir (join output_dir platform) binTag)
                   (print (''  -> Flattened: '' @ join output_dir platform @ ''/''))
          else skip)"

definition tar_branch :: "string \<Rightarrow> bool \<Rightarrow> string \<Rightarrow> string \<Rightarrow> action" where
  "tar_branch output_dir collapse platform archive =
     seq (print ('':: tar: '' @ archive))
         (reading (tarfile_open archive) (\<lambda>members.
            seq (for_each members tar_extract)
           (seq (print (''  -> Extracted: '' @ commonprefix (map fst members) @ ''/''))
                (after_extract output_dir collapse platform
                   (commonprefix (map fst members)) (binTag_of archive)))))"

definition zip_branch :: "string \<Rightarrow> bool \<Rightarrow> string \<Rightarrow> string \<Rightarrow> action" where
  "zip_branch output_dir collapse platform archive =
     seq (print ('':: zip: '' @ archive))
         (reading (zipfile_open archive) (\<lambda>members.
            seq (for_each members zip_extract)
           (seq (print (''  -> Extracted: '' @ commonprefix (map fst members)))
                (after_extract output_dir collapse platform
                   (commonprefix (map fst members)) (binTag_of archive)))))"

definition ingest_archive :: "string \<Rightarrow> bool \<Rightarrow> string \<Rightarrow> string \<Rightarrow> action" where
  "ingest_archive output_dir collapse platform archive =
     (if py_in_str ''.tar.'' archive then tar_branch output_dir collapse platform archive
      else if py_in_str ''.zip'' archive then zip_branch output_dir collapse platform archive
      else skip)"

definition list_item :: "string \<Rightarrow> string \<Rightarrow> action" where
  "list_item output_dir item w =
     (if os_path_isdir w (join output_dir item) then print ('' - '' @ item @ ''/'') w
      else if os_path_isfile w (join output_dir item) then print ('' - '' @ item) w
      else (None, w))"

text \<open>
  \<^verbatim>\<open>output_dir\<close> is \<^verbatim>\<open>args.output\<close>, which is \<^verbatim>\<open>None\<close> without \<^verbatim>\<open>--output\<close>;
  \<^verbatim>\<open>os.path.exists(None)\<close> raises \<^verbatim>\<open>TypeError\<close>.
\<close>

definition post_action :: "string option \<Rightarrow> bool \<Rightarrow> action" where
  "post_action output_dir collapse w =
     (if length (ARCHIVES w) = 0 then (None, w)
      else seq (print (nl @ ''Archives:''))
             (case output_dir of
                None \<Rightarrow> raise TypeError
              | Some out \<Rightarrow>
                  seq (\<lambda>w1. if \<not> os_path_exists w1 out then os_makedirs False out w1
                            else (None, w1))
                 (seq (\<lambda>w1. for_each (ARCHIVES w1)
                              (\<lambda>(platform, archives).
                                 for_each archives (ingest_archive out collapse platform)) w1)
                 (seq (print (nl @ ''Output: '' @ out @ ''/''))
                      (reading (os_listdir out) (\<lambda>items.
                         for_each (sort items) (list_item out)))))) w)"

subsection \<open>\<^verbatim>\<open>main\<close> with \<^verbatim>\<open>--download-only\<close>\<close>

record args =
  arg_product :: "string option"
  arg_label :: "string option"
  arg_os :: "string option"
  arg_arch :: "string option"
  arg_component :: "string option"
  arg_variant :: "string option"
  arg_output :: "string option"

text \<open>An argument inside an f-string: \<^verbatim>\<open>None\<close> is printed as its name.\<close>

definition fmt :: "string option \<Rightarrow> string" where
  "fmt v = (case v of None \<Rightarrow> ''None'' | Some s \<Rightarrow> s)"

text \<open>The local variables \<^verbatim>\<open>parent\<close>, \<^verbatim>\<open>manifest_uri\<close> and \<^verbatim>\<open>platform\<close> of \<^verbatim>\<open>main\<close>.\<close>

definition parent_of :: "args \<Rightarrow> string" where
  "parent_of a = DOMAIN @ ''/compute/'' @ fmt (arg_product a) @ ''/redist/''"

definition manifest_uri_of :: "args \<Rightarrow> string" where
  "manifest_uri_of a = parent_of a @ ''redistrib_'' @ fmt (arg_label a) @ ''.json''"

definition platform_of :: "args \<Rightarrow> string" where
  "platform_of a = fmt (arg_os a) @ ''-'' @ fmt (arg_arch a)"

text \<open>The body of the \<^verbatim>\<open>try\<close>, up to \<^verbatim>\<open>sys.exit(0)\<close>.\<close>

definition download_only :: "args \<Rightarrow> action" where
  "download_only a =
     urlopen (manifest_uri_of a) (\<lambda>(status, body).
       compute (json_loads body) (\<lambda>manifest.
         seq (fetch_action (parent_of a) manifest (arg_component a)
                (Some (platform_of a)) (arg_variant a) True)
             (post_action (arg_output a) True)))"

text \<open>
  The exit status of the process and the final state: \<^verbatim>\<open>sys.exit(0)\<close> when the body
  raised nothing, and for any \<^verbatim>\<open>Exception\<close> one message on \<^verbatim>\<open>stderr\<close> and
  \<^verbatim>\<open>sys.exit(1)\<close>.
\<close>

definition main :: "args \<Rightarrow> world \<Rightarrow> nat \<times> world" where
  "main a w =
     (case download_only a w of
        (None, w1) \<Rightarrow> (0, w1)
      | (Some e, w1) \<Rightarrow>
          (1, w1\<lparr>stderr := stderr w1 @ [Error_during_download e]\<rparr>))"


subsection \<open>Notions used in the statements\<close>

text \<open>
  The keys of \<^verbatim>\<open>ARCHIVES\<close>; a statement that never removes one; and the number of
  artifacts that \<^verbatim>\<open>parse_artifact\<close> has reported as neither found nor fetched (its
  last branch prints a line that starts with \<^verbatim>\<open>"  -> Artifact: "\<close>).
\<close>

definition keys_of :: "world \<Rightarrow> string set" where
  "keys_of w = set (map fst (ARCHIVES w))"

definition logged_unresolved :: "world \<Rightarrow> nat" where
  "logged_unresolved w = length (filter (prefix ''  -> Artifact: '') (stdout w))"

definition keeps_keys :: "action \<Rightarrow> bool" where
  "keeps_keys f = (\<forall>w. keys_of w \<subseteq> keys_of (snd (f w)))"

text \<open>
  The archives in the order in which \<^verbatim>\<open>post_action\<close> ingests them, each with the
  platform under which it is recorded.
\<close>

definition ingestion_order :: "world \<Rightarrow> (string \<times> string) list" where
  "ingestion_order w =
     concat (map (\<lambda>(platform, archives). map (Pair platform) archives) (ARCHIVES w))"

text \<open>
  Names that a directory entry can have; a tree all of whose entries have such a name; the
  regular file that a path names, as the place of that file in the tree; and the paths that
  \<^verbatim>\<open>fix_permissions\<close> visits, in the order of the walk.
\<close>

definition valid_name :: "string \<Rightarrow> bool" where
  "valid_name x = (x \<noteq> [] \<and> CHR ''/'' \<notin> set x \<and> x \<noteq> ''.'' \<and> x \<noteq> ''..'')"

fun valid_names :: "node \<Rightarrow> bool" where
  "valid_names (Dir es) = list_all (\<lambda>(k, v). valid_name k \<and> valid_names v) es"
| "valid_names _ = True"

definition target_of :: "world \<Rightarrow> string \<Rightarrow> string list option" where
  "target_of v p =
     (case resolve_path v Follow p of
        Inl e \<Rightarrow> None
      | Inr q \<Rightarrow> (case lookup_node (root v) q of Some (File c) \<Rightarrow> Some q | _ \<Rightarrow> None))"

definition walked_files :: "string \<Rightarrow> world \<Rightarrow> string list" where
  "walked_files directory w =
     concat (map (\<lambda>(rt, dirs, files). map (join rt) files) (os_walk directory w))"


section \<open>Example states\<close>

text \<open>
  A manifest with one component \<open>c\<close> that offers one flat artifact for the platform
  \<open>p\<close>, and states of a process whose working directory is \<^verbatim>\<open>/w\<close>.
\<close>

definition ex_manifest :: json where
  "ex_manifest =
     JObj [(''c'', JObj [(''name'', JStr ''n''), (''version'', JStr ''1''),
                         (''p'', JObj [(''relative_path'', JStr ''d/f.tar.gz'')])])]"

text \<open>The artifact is already in \<^verbatim>\<open>/w/c/p\<close>; the network would serve it.\<close>

definition ex_cached :: world where
  "ex_cached =
     \<lparr>root = Dir [(''w'', Dir [(''c'', Dir [(''p'',
               Dir [(''f.tar.gz'', File (Bytes ''old''))])])])],
      modes = (\<lambda>q. 420), cwd = [''w''], net = (\<lambda>url. Inr (200, Bytes ''new'')),
      ARCHIVES = [(''p'', [])], stdout = [], stderr = [], requests = []\<rparr>"


text \<open>
  A zip archive under a name that has \<^verbatim>\<open>.zip\<close> inside but not at its end, holding
  the files \<^verbatim>\<open>t/x\<close> and \<^verbatim>\<open>t/y\<close>.
\<close>

definition ex_zipx :: world where
  "ex_zipx =
     \<lparr>root = Dir [(''w'', Dir [(''a.zipx'',
               File (ZipArchive [(''t/x'', MFile 420 ''data''),
                                     (''t/y'', MFile 420 ''more'')]))])],
      modes = (\<lambda>q. 420), cwd = [''w''], net = (\<lambda>url. Inl URLError),
      ARCHIVES = [(''p'', [''a.zipx''])], stdout = [], stderr = [], requests = []\<rparr>"

text \<open>A component that offers the platforms \<open>lin\<close>, \<open>source\<close> and \<open>win\<close>.\<close>

definition ex_platforms :: json where
  "ex_platforms =
     JObj [(''c'', JObj [(''name'', JStr ''n''), (''version'', JStr ''1''),
                         (''lin'', JObj [(''relative_path'', JStr ''a.tar.gz'')]),
                         (''source'', JObj [(''relative_path'', JStr ''s.tar.gz'')]),
                         (''win'', JObj [(''relative_path'', JStr ''b.zip'')])])]"


text \<open>An empty working directory and a network that serves every URL.\<close>

definition ex_online :: world where
  "ex_online =
     \<lparr>root = Dir [(''w'', Dir [])],
      modes = (\<lambda>q. 420), cwd = [''w''], net = (\<lambda>url. Inr (200, Bytes ''x'')),
      ARCHIVES = [], stdout = [], stderr = [], requests = []\<rparr>"


text \<open>The same, with keys in \<^verbatim>\<open>ARCHIVES\<close> and no archive under any of them.\<close>

definition ex_keys_only :: world where
  "ex_keys_only = ex_online\<lparr>ARCHIVES := [(''name'', []), (''version'', []), (''p'', [])]\<rparr>"

text \<open>
  A run of \<^verbatim>\<open>main\<close>: the manifest offers \<^verbatim>\<open>f.tar.gz\<close> for the selected platform
  and \<^verbatim>\<open>s.tar.gz\<close> as source. In \<open>ex_corrupt\<close> the network serves bytes that are no
  archive for the first and a tar archive for the second; in \<open>ex_good\<close> it serves a
  tar archive for both.
\<close>

definition ex_two :: json where
  "ex_two =
     JObj [(''c'', JObj [(''name'', JStr ''n''), (''version'', JStr ''1''),
                         (''lin-x'', JObj [(''relative_path'', JStr ''f.tar.gz'')]),
                         (''source'', JObj [(''relative_path'', JStr ''s.tar.gz'')])])]"

definition ex_args :: args where
  "ex_args =
     \<lparr>arg_product = Some ''cuda'', arg_label = Some ''1'', arg_os = Some ''lin'',
      arg_arch = Some ''x'', arg_component = None, arg_variant = None,
      arg_output = Some ''out''\<rparr>"

definition ex_corrupt :: world where
  "ex_corrupt =
     \<lparr>root = Dir [(''w'', Dir [])],
      modes = (\<lambda>q. 420), cwd = [''w''],
      net = (\<lambda>url. if py_endswith url ''.json'' then Inr (200, JsonDoc ex_two)
                   else if py_endswith url ''s.tar.gz''
                   then Inr (200, TarArchive [(''s/a'', MFile 292 ''1''), (''s/b'', MFile 292 ''2'')])
                   else Inr (200, Bytes ''junk'')),
      ARCHIVES = [], stdout = [], stderr = [], requests = []\<rparr>"

definition ex_good :: world where
  "ex_good =
     ex_corrupt\<lparr>net := (\<lambda>url. if py_endswith url ''.json'' then Inr (200, JsonDoc ex_two)
                   else Inr (200, TarArchive [(''s/a'', MFile 292 ''1''),
                                              (''s/b'', MFile 292 ''2'')]))\<rparr>"

text \<open>A working directory that holds \<^verbatim>\<open>f.tar.gz\<close>, which is not an archive.\<close>

definition ex_junk :: world where
  "ex_junk =
     \<lparr>root = Dir [(''w'', Dir [(''f.tar.gz'', File (Bytes ''junk''))])],
      modes = (\<lambda>q. 420), cwd = [''w''], net = (\<lambda>url. Inl URLError),
      ARCHIVES = [(''p'', [''f.tar.gz'', ''g.tar.gz''])], stdout = [], stderr = [],
      requests = []\<rparr>"

text \<open>
  A tree \<^verbatim>\<open>/w/t\<close> with two read-only files, one of them in a subdirectory, and a
  symbolic link to the first; a read-only file beside the tree.
\<close>

definition ex_readonly :: world where
  "ex_readonly =
     \<lparr>root = Dir [(''w'', Dir [(''t'', Dir [(''a'', File (Bytes ''1'')),
                                           (''s'', Dir [(''b'', File (Bytes ''2''))]),
                                           (''l'', Link ''a'')]),
                              (''u'', File (Bytes ''3''))])],
      modes = (\<lambda>q. 292), cwd = [''w''], net = (\<lambda>url. Inl URLError),
      ARCHIVES = [], stdout = [], stderr = [], requests = []\<rparr>"

text \<open>
  A staging tree \<^verbatim>\<open>/w/t\<close> with a library and a symbolic link to it, and a destination
  \<^verbatim>\<open>/w/out/p\<close> that holds both from an earlier run; then a destination that is a
  regular file.
\<close>

definition ex_rerun :: world where
  "ex_rerun =
     \<lparr>root = Dir [(''w'', Dir [
         (''t'', Dir [(''lib.so'', Link ''lib.so.1''), (''lib.so.1'', File (Bytes ''v2''))]),
         (''out'', Dir [(''p'', Dir [(''lib.so'', Link ''lib.so.1''),
                                     (''lib.so.1'', File (Bytes ''v1''))])])])],
      modes = (\<lambda>q. 420), cwd = [''w''], net = (\<lambda>url. Inl URLError),
      ARCHIVES = [], stdout = [], stderr = [], requests = []\<rparr>"

definition ex_destfile :: world where
  "ex_destfile =
     \<lparr>root = Dir [(''w'', Dir [
         (''t'', Dir [(''a'', File (Bytes ''1''))]),
         (''out'', Dir [(''p'', File (Bytes ''x''))])])],
      modes = (\<lambda>q. 420), cwd = [''w''], net = (\<lambda>url. Inl URLError),
      ARCHIVES = [], stdout = [], stderr = [], requests = []\<rparr>"





text \<open>
  Runs of \<^verbatim>\<open>main\<close>: the first archive is a tar archive and the second is not; the
  network fails; the manifest is answered with status 404; the manifest is not JSON.
\<close>

definition ex_corrupt_later :: world where
  "ex_corrupt_later =
     ex_corrupt\<lparr>net := (\<lambda>url. if py_endswith url ''.json'' then Inr (200, JsonDoc ex_two)
                   else if py_endswith url ''f.tar.gz''
                   then Inr (200, TarArchive [(''s/a'', MFile 292 ''1''), (''s/b'', MFile 292 ''2'')])
                   else Inr (200, Bytes ''junk''))\<rparr>"

definition ex_offline :: world where
  "ex_offline = ex_corrupt\<lparr>net := (\<lambda>url. Inl URLError)\<rparr>"

definition ex_no_manifest :: world where
  "ex_no_manifest = ex_corrupt\<lparr>net := (\<lambda>url. Inr (404, Bytes []))\<rparr>"

definition ex_not_json :: world where
  "ex_not_json = ex_corrupt\<lparr>net := (\<lambda>url. Inr (200, Bytes ''junk''))\<rparr>"

text \<open>
  A tar archive and a zip archive whose only member is to be extracted below a path
  that is a regular file.
\<close>

definition ex_clash :: world where
  "ex_clash =
     \<lparr>root = Dir [(''w'', Dir [
         (''a.tar.gz'', File (TarArchive [(''a.tar.gz/x'', MFile 420 ''1'')])),
         (''a.zip'', File (ZipArchive [(''a.zip/x'', MFile 420 ''1'')]))])],
      modes = (\<lambda>q. 420), cwd = [''w''], net = (\<lambda>url. Inl URLError),
      ARCHIVES = [(''p'', [''a.tar.gz'', ''a.zip''])], stdout = [], stderr = [],
      requests = []\<rparr>"

text \<open>
  A manifest with the relative path of a CUDA runtime archive, the arguments that select
  it, and a working directory that holds the archive at the relative path
  \<^verbatim>\<open>https://developer.download.nvidia.com/compute/cuda/redist/...\<close>, which is the second
  place where \<^verbatim>\<open>parse_artifact\<close> looks.
\<close>

definition ex_cudart :: json where
  "ex_cudart =
     JObj [(''cuda_cudart'', JObj [(''name'', JStr ''CUDA Runtime''), (''version'', JStr ''12.4.99''),
        (''linux-x86_64'',
           JObj [(''relative_path'',
                  JStr ''cuda_cudart/linux-x86_64/cuda_cudart-linux-x86_64-12.4.99-archive.tar.xz'')])])]"

definition ex_cudart_args :: args where
  "ex_cudart_args =
     \<lparr>arg_product = Some ''cuda'', arg_label = Some ''12.4.1'', arg_os = Some ''linux'',
      arg_arch = Some ''x86_64'', arg_component = None, arg_variant = None,
      arg_output = Some ''out''\<rparr>"

definition ex_mirror :: world where
  "ex_mirror =
     \<lparr>root = Dir [(''w'', Dir [(''https:'', Dir [(''developer.download.nvidia.com'',
         Dir [(''compute'', Dir [(''cuda'', Dir [(''redist'', Dir [(''cuda_cudart'',
           Dir [(''linux-x86_64'',
             Dir [(''cuda_cudart-linux-x86_64-12.4.99-archive.tar.xz'',
               File (TarArchive [(''t/x'', MFile 420 ''1''),
                                 (''t/y'', MFile 420 ''2'')]))])])])])])])])])],
      modes = (\<lambda>q. 420), cwd = [''w''],
      net = (\<lambda>url. if py_endswith url ''.json'' then Inr (200, JsonDoc ex_cudart)
                   else Inl URLError),
      ARCHIVES = [], stdout = [], stderr = [], requests = []\<rparr>"

text \<open>An archive whose name carries a tag, in the working directory.\<close>

definition ex_tagged :: world where
  "ex_tagged =
     \<lparr>root = Dir [(''w'', Dir [(''cudnn-linux-x86_64-8.9_cuda12-archive.tar.xz'',
               File (TarArchive [(''t/x'', MFile 420 ''1''), (''t/y'', MFile 420 ''2'')]))])],
      modes = (\<lambda>q. 420), cwd = [''w''], net = (\<lambda>url. Inl URLError),
      ARCHIVES = [(''p'', [''cudnn-linux-x86_64-8.9_cuda12-archive.tar.xz''])],
      stdout = [], stderr = [], requests = []\<rparr>"



section \<open>Properties\<close>

subsection \<open>Strings\<close>

lemma py_split_nonempty: "py_split c s \<noteq> []"
  by (induction s) (auto split: list.splits)

lemma length_py_split: "length (py_split c s) = Suc (count_list s c)"
  by (induction s) (auto split: list.splits simp: py_split_nonempty)

lemma py_split_sep_free: "seg \<in> set (py_split c s) \<Longrightarrow> c \<notin> set seg"
  by (induction s arbitrary: seg) (auto split: list.splits if_splits)

lemma py_join_py_split: "py_join [c] (py_split c s) = s"
proof (induction s)
  case Nil
  then show ?case by simp
next
  case (Cons x xs)
  obtain y ys where ys: "py_split c xs = y # ys"
    using py_split_nonempty [of c xs] by (cases "py_split c xs") auto
  with Cons show ?case by (cases ys) auto
qed

lemma py_in_str_iff: "py_in_str sub s \<longleftrightarrow> (\<exists>ps ss. s = ps @ sub @ ss)"
proof (induction s)
  case Nil
  then show ?case by auto
next
  case (Cons x xs)
  show ?case
  proof
    assume "py_in_str sub (x # xs)"
    then consider "prefix sub (x # xs)" | "py_in_str sub xs" by auto
    then show "\<exists>ps ss. x # xs = ps @ sub @ ss"
    proof cases
      case 1
      then obtain ss where "x # xs = sub @ ss" by (auto simp: prefix_def)
      then have "x # xs = [] @ sub @ ss" by simp
      then show ?thesis by blast
    next
      case 2
      with Cons obtain ps ss where "xs = ps @ sub @ ss" by blast
      then have "x # xs = (x # ps) @ sub @ ss" by simp
      then show ?thesis by blast
    qed
  next
    assume "\<exists>ps ss. x # xs = ps @ sub @ ss"
    then obtain ps ss where e: "x # xs = ps @ sub @ ss" by blast
    show "py_in_str sub (x # xs)"
    proof (cases ps)
      case Nil
      with e have "prefix sub (x # xs)" by (auto simp: prefix_def)
      then show ?thesis by simp
    next
      case (Cons p ps')
      with e have "xs = ps' @ sub @ ss" by simp
      with Cons.IH have "py_in_str sub xs" by blast
      then show ?thesis by simp
    qed
  qed
qed

lemma py_endswith_in_str: "py_endswith s suf \<Longrightarrow> py_in_str suf s"
  unfolding py_endswith_def py_in_str_iff suffix_def by (metis append_Nil2)


subsection \<open>The accumulator\<close>



text \<open>The three outcomes of \<^verbatim>\<open>urlopen\<close>.\<close>

lemma urlopen_response:
  "net w url = Inr (status, body) \<Longrightarrow> 200 \<le> status \<Longrightarrow> status < 300 \<Longrightarrow>
     urlopen url k w = k (status, body) (w\<lparr>requests := requests w @ [url]\<rparr>)"
  by (simp add: urlopen_def)

lemma urlopen_HTTPError:
  "net w url = Inr (status, body) \<Longrightarrow> \<not> (200 \<le> status \<and> status < 300) \<Longrightarrow>
     urlopen url k w = (Some (HTTPError status), w\<lparr>requests := requests w @ [url]\<rparr>)"
  by (auto simp: urlopen_def)

lemma urlopen_failure:
  "net w url = Inl e \<Longrightarrow>
     urlopen url k w = (Some e, w\<lparr>requests := requests w @ [url]\<rparr>)"
  by (simp add: urlopen_def)

subsection \<open>Local lookup before a fetch (C1)\<close>

text \<open>
  C1. The claim: with \<^verbatim>\<open>retrieve\<close> true, an artifact whose file exists at one of the
  four candidate places (the base name in the working directory, the path
  \<^verbatim>\<open>parent + relative_path\<close>, \<^verbatim>\<open>parent\<close> joined with the base name, the directory
  \<^verbatim>\<open>cwd/component/platform\<close> joined with the base name) is not fetched, and the first
  such place is recorded. The guard of \<^verbatim>\<open>parse_artifact\<close> tests the fourth place as
  \<^verbatim>\<open>pwd + filename\<close>, without the separator that the \<^verbatim>\<open>elif\<close> below it puts in with
  \<^verbatim>\<open>os.path.join(pwd, filename)\<close>. In the state \<open>ex_cached\<close> the file is at
  \<^verbatim>\<open>/w/c/p/f.tar.gz\<close>, the fourth place: the artifact is requested from the network all
  the same, and the record is the base name in the working directory.
\<close>

theorem cached_artifact_is_fetched_again:
  "os_path_exists ex_cached (join (join3 (os_getcwd ex_cached) ''c'' ''p'') (basename ''d/f.tar.gz''))
   \<and> fst (parse_artifact ''http://h/'' ex_manifest ''c'' ''p'' True None ex_cached) = None
   \<and> requests (snd (parse_artifact ''http://h/'' ex_manifest ''c'' ''p'' True None ex_cached))
       = [''http://h/d/f.tar.gz'']
   \<and> archives_of (snd (parse_artifact ''http://h/'' ex_manifest ''c'' ''p'' True None ex_cached)) ''p''
       = [''f.tar.gz'']"
  by code_simp

subsection \<open>A fetch that fails (C2)\<close>




subsection \<open>The dispatch on the archive's name (C4)\<close>

text \<open>
  C4, as the claim states it, fails: \<^verbatim>\<open>a.zipx\<close> has no \<^verbatim>\<open>.tar.\<close> inside and does
  not end in \<^verbatim>\<open>.zip\<close>, and it is extracted with the zip extractor and flattened; and
  for \<^verbatim>\<open>a.txt\<close>, which is skipped, nothing is printed.
\<close>

theorem zip_inside_name_example:
  "\<not> py_in_str ''.tar.'' ''a.zipx'' \<and> \<not> py_endswith ''a.zipx'' ''.zip''
   \<and> fst (ingest_archive ''out'' True ''p'' ''a.zipx'' ex_zipx) = None
   \<and> stdout (snd (ingest_archive ''out'' True ''p'' ''a.zipx'' ex_zipx))
       = ['':: zip: a.zipx'', ''  -> Extracted: t/'', ''  -> Flattened: out/p/'']
   \<and> os_path_isfile (snd (ingest_archive ''out'' True ''p'' ''a.zipx'' ex_zipx)) ''out/p/x''
   \<and> \<not> py_in_str ''.tar.'' ''a.txt'' \<and> \<not> py_endswith ''a.txt'' ''.zip''
   \<and> stdout (snd (ingest_archive ''out'' True ''p'' ''a.txt'' ex_zipx)) = stdout ex_zipx"
  by code_simp

text \<open>
  C4, amended. An archive path with \<^verbatim>\<open>.tar.\<close> somewhere inside goes to the tar
  extractor; otherwise one with \<^verbatim>\<open>.zip\<close> somewhere inside (at its end, in particular)
  goes to the zip extractor; every other path is skipped: the state is unchanged,
  nothing is extracted and nothing is printed.
\<close>

theorem ingest_archive_dispatch:
  "(py_in_str ''.tar.'' archive \<longrightarrow>
      ingest_archive output_dir collapse platform archive =
        tar_branch output_dir collapse platform archive)
   \<and> (\<not> py_in_str ''.tar.'' archive \<and> py_in_str ''.zip'' archive \<longrightarrow>
      ingest_archive output_dir collapse platform archive =
        zip_branch output_dir collapse platform archive)
   \<and> (\<not> py_in_str ''.tar.'' archive \<and> \<not> py_in_str ''.zip'' archive \<longrightarrow>
      ingest_archive output_dir collapse platform archive w = (None, w))
   \<and> (py_endswith archive ''.zip'' \<longrightarrow> py_in_str ''.zip'' archive)
   \<and> (py_in_str ''.tar.'' archive \<longleftrightarrow> (\<exists>a b. archive = a @ ''.tar.'' @ b))
   \<and> (py_in_str ''.zip'' archive \<longleftrightarrow> (\<exists>a b. archive = a @ ''.zip'' @ b))"
  using py_in_str_iff [of "''.tar.''" archive] py_in_str_iff [of "''.zip''" archive]
    py_endswith_in_str [of archive "''.zip''"]
  by (simp add: ingest_archive_def skip_def)

theorem ingest_archive_dispatch_witness:
  "py_in_str ''.tar.'' ''a.tar.gz''
   \<and> ingest_archive ''out'' True ''p'' ''a.tar.gz'' = tar_branch ''out'' True ''p'' ''a.tar.gz''
   \<and> \<not> py_in_str ''.tar.'' ''b.zip'' \<and> py_endswith ''b.zip'' ''.zip''
   \<and> ingest_archive ''out'' True ''p'' ''b.zip'' = zip_branch ''out'' True ''p'' ''b.zip''
   \<and> \<not> py_in_str ''.tar.'' ''a.txt'' \<and> \<not> py_in_str ''.zip'' ''a.txt''
   \<and> ingest_archive ''out'' True ''p'' ''a.txt'' ex_zipx = (None, ex_zipx)"
proof -
  have f1: "py_in_str ''.tar.'' ''a.tar.gz''" by code_simp
  have f2: "\<not> py_in_str ''.tar.'' ''b.zip''" by code_simp
  have f3: "py_endswith ''b.zip'' ''.zip''" by code_simp
  have f4: "\<not> py_in_str ''.tar.'' ''a.txt''" by code_simp
  have f5: "\<not> py_in_str ''.zip'' ''a.txt''" by code_simp
  show ?thesis
    using ingest_archive_dispatch [of "''a.tar.gz''" "''out''" True "''p''"]
      ingest_archive_dispatch [of "''b.zip''" "''out''" True "''p''"]
      ingest_archive_dispatch [of "''a.txt''" "''out''" True "''p''" ex_zipx]
      f1 f2 f3 f4 f5
    by blast
qed

subsection \<open>Statements and the accumulator\<close>

lemma compute_Inr: "compute (Inr x) k = k x"
  by (simp add: compute_def reading_def fun_eq_iff)

lemma compute_Inl: "compute (Inl e) k = raise e"
  by (simp add: compute_def reading_def raise_def fun_eq_iff)

lemma for_each_append:
  "for_each (xs @ ys) f w =
     (case for_each xs f w of (None, w1) \<Rightarrow> for_each ys f w1 | (Some e, w1) \<Rightarrow> (Some e, w1))"
  by (induction xs arbitrary: w) (auto split: prod.splits option.splits)

lemma for_each_map: "for_each (map g xs) f w = for_each xs (\<lambda>x. f (g x)) w"
  by (induction xs arbitrary: w) (auto split: prod.splits option.splits)

lemma keeps_keysI: "(\<And>w. keys_of w \<subseteq> keys_of (snd (f w))) \<Longrightarrow> keeps_keys f"
  by (simp add: keeps_keys_def)

lemma keeps_keysD: "keeps_keys f \<Longrightarrow> k \<in> keys_of w \<Longrightarrow> k \<in> keys_of (snd (f w))"
  by (auto simp: keeps_keys_def)

lemma keeps_keys_skip: "keeps_keys skip"
  by (simp add: keeps_keys_def skip_def)

lemma keeps_keys_raise: "keeps_keys (raise e)"
  by (simp add: keeps_keys_def raise_def)

lemma keeps_keys_print: "keeps_keys (print s)"
  by (simp add: keeps_keys_def print_def keys_of_def)

lemma keeps_keys_seq: "keeps_keys f \<Longrightarrow> keeps_keys g \<Longrightarrow> keeps_keys (seq f g)"
proof (rule keeps_keysI)
  fix w
  assume f: "keeps_keys f" and g: "keeps_keys g"
  obtain r w1 where fw: "f w = (r, w1)" by (cases "f w")
  from f have "keys_of w \<subseteq> keys_of (snd (f w))" by (simp add: keeps_keys_def)
  then have a: "keys_of w \<subseteq> keys_of w1" using fw by simp
  from g have b: "keys_of w1 \<subseteq> keys_of (snd (g w1))" by (simp add: keeps_keys_def)
  show "keys_of w \<subseteq> keys_of (snd (seq f g w))"
    using a b fw by (cases r) (auto simp: seq_def)
qed

lemma keeps_keys_for_each:
  "(\<And>x. x \<in> set xs \<Longrightarrow> keeps_keys (body x)) \<Longrightarrow> keeps_keys (for_each xs body)"
proof (induction xs)
  case Nil
  then show ?case by (simp add: keeps_keys_def)
next
  case (Cons x xs)
  have b: "keeps_keys (body x)" using Cons.prems by simp
  have r: "keeps_keys (for_each xs body)" using Cons by simp
  show ?case
  proof (rule keeps_keysI)
    fix w
    obtain e w1 where fw: "body x w = (e, w1)" by (cases "body x w")
    from b have "keys_of w \<subseteq> keys_of (snd (body x w))" by (simp add: keeps_keys_def)
    then have a: "keys_of w \<subseteq> keys_of w1" using fw by simp
    from r have c: "keys_of w1 \<subseteq> keys_of (snd (for_each xs body w1))" by (simp add: keeps_keys_def)
    show "keys_of w \<subseteq> keys_of (snd (for_each (x # xs) body w))"
      using a c fw by (cases e) auto
  qed
qed

lemma keeps_keys_reading: "(\<And>x. keeps_keys (k x)) \<Longrightarrow> keeps_keys (reading m k)"
  by (auto simp: keeps_keys_def reading_def split: sum.splits)

lemma keeps_keys_compute: "(\<And>x. keeps_keys (k x)) \<Longrightarrow> keeps_keys (compute m k)"
  by (simp add: compute_def keeps_keys_reading)

lemma keeps_keys_write_file: "keeps_keys (write_file p c)"
  by (auto simp: keeps_keys_def write_file_def keys_of_def split: sum.splits option.splits node.splits)

lemma keeps_keys_urlopen: "(\<And>x. keeps_keys (k x)) \<Longrightarrow> keeps_keys (urlopen url k)"
proof (rule keeps_keysI)
  fix w :: world
  assume k: "\<And>x. keeps_keys (k x)"
  let ?w0 = "w\<lparr>requests := requests w @ [url]\<rparr>"
  have w0: "keys_of ?w0 = keys_of w" by (simp add: keys_of_def)
  show "keys_of w \<subseteq> keys_of (snd (urlopen url k w))"
  proof (cases "net w url")
    case (Inl e)
    then show ?thesis by (simp add: urlopen_failure w0)
  next
    case (Inr r)
    obtain status body where r: "r = (status, body)" by (cases r)
    show ?thesis
    proof (cases "200 \<le> status \<and> status < 300")
      case True
      from k have "keys_of ?w0 \<subseteq> keys_of (snd (k (status, body) ?w0))"
        by (simp add: keeps_keys_def)
      with Inr r True show ?thesis by (simp add: urlopen_response w0)
    next
      case False
      with Inr r show ?thesis by (simp add: urlopen_HTTPError w0)
    qed
  qed
qed

lemma keeps_keys_archives_init: "keeps_keys (archives_init p)"
  by (auto simp: keeps_keys_def archives_init_def keys_of_def)

lemma keeps_keys_archives_append: "keeps_keys (archives_append p x)"
  by (force simp: keeps_keys_def archives_append_def keys_of_def)

lemma keeps_keys_fetch_file: "keeps_keys (fetch_file u f)"
  unfolding fetch_file_def
  by (rule keeps_keys_urlopen)
    (auto intro!: keeps_keys_seq keeps_keys_print keeps_keys_write_file split: prod.splits)

lemma keeps_keys_parse_artifact:
  "keeps_keys (parse_artifact parent manifest component platform retrieve variant)"
proof (rule keeps_keysI)
  fix w
  have k1: "keys_of v \<subseteq> keys_of (snd (seq (fetch_file u f) (archives_append p x) v))"
    for u f p x v
    using keeps_keys_seq [OF keeps_keys_fetch_file keeps_keys_archives_append]
    by (simp add: keeps_keys_def)
  have k2: "keys_of v \<subseteq> keys_of (snd (seq (print t) (archives_append p x) v))" for t p x v
    using keeps_keys_seq [OF keeps_keys_print keeps_keys_archives_append]
    by (simp add: keeps_keys_def)
  have k3: "keys_of v \<subseteq> keys_of (snd (seq (print t) (print t') v))" for t t' v
    using keeps_keys_seq [OF keeps_keys_print keeps_keys_print]
    by (simp add: keeps_keys_def)
  show "keys_of w \<subseteq> keys_of (snd (parse_artifact parent manifest component platform retrieve
      variant w))"
    by (cases "relative_path_of manifest component platform variant")
      (simp_all add: parse_artifact_def compute_def reading_def Let_def k1 k2 k3)
qed

lemma keeps_keys_variant_step:
  "keeps_keys (variant_step parent manifest component platform cuda_filter retrieve variant)"
  by (simp add: variant_step_def keeps_keys_print keeps_keys_parse_artifact)

lemma keeps_keys_resolve_platform:
  "keeps_keys (resolve_platform parent manifest component platform cuda_filter retrieve entry)"
  unfolding resolve_platform_def
  by (intro keeps_keys_compute)
    (simp add: keeps_keys_parse_artifact keeps_keys_compute keeps_keys_for_each
      keeps_keys_variant_step)

lemma keeps_keys_platform_step:
  "keeps_keys (platform_step parent manifest component platform_filter cuda_filter retrieve
     platform)"
  unfolding platform_step_def
  by (simp add: keeps_keys_skip keeps_keys_seq keeps_keys_archives_init keeps_keys_compute
      keeps_keys_print keeps_keys_resolve_platform)

lemma keeps_keys_component_step:
  "keeps_keys (component_step parent manifest component_filter platform_filter cuda_filter
     retrieve component)"
  unfolding component_step_def
  by (intro keeps_keys_compute)
    (simp add: keeps_keys_skip keeps_keys_seq keeps_keys_compute keeps_keys_print
      keeps_keys_for_each keeps_keys_platform_step)


lemma keeps_keys_fetch_action:
  "keeps_keys (fetch_action parent manifest component_filter platform_filter cuda_filter
     retrieve)"
  unfolding fetch_action_def
  by (intro keeps_keys_compute keeps_keys_for_each keeps_keys_component_step)

lemma archives_init_result:
  "fst (archives_init p w) = None
   \<and> p \<in> keys_of (snd (archives_init p w))
   \<and> archives_of (snd (archives_init p w)) k = archives_of w k
   \<and> root (snd (archives_init p w)) = root w
   \<and> stdout (snd (archives_init p w)) = stdout w
   \<and> requests (snd (archives_init p w)) = requests w
   \<and> (p \<notin> keys_of w \<longrightarrow> map_of (ARCHIVES (snd (archives_init p w))) p = Some [])"
proof (cases "p \<in> set (map fst (ARCHIVES w))")
  case True
  then show ?thesis by (simp add: archives_init_def keys_of_def)
next
  case False
  then have none: "map_of (ARCHIVES w) p = None"
    by (simp add: map_of_eq_None_iff)
  have "map_of (ARCHIVES w @ [(p, [])]) q =
      (case map_of (ARCHIVES w) q of None \<Rightarrow> if q = p then Some [] else None | Some v \<Rightarrow> Some v)"
    for q
    by (simp add: map_add_def split: option.splits)
  from this [of k] this [of p] False none show ?thesis
    by (auto simp: archives_init_def keys_of_def archives_of_def split: option.splits)
qed

lemma for_each_establishes:
  assumes "for_each xs body w = (None, w')" and "x \<in> set xs"
    and est: "\<And>v v'. body x v = (None, v') \<Longrightarrow> Q v'"
    and pres: "\<And>y v. Q v \<Longrightarrow> Q (snd (body y v))"
  shows "Q w'"
  using assms(1,2)
proof (induction xs arbitrary: w)
  case Nil
  then show ?case by simp
next
  case (Cons y ys)
  obtain r w1 where b: "body y w = (r, w1)" by (cases "body y w")
  with Cons.prems(1) have r: "r = None" and rest: "for_each ys body w1 = (None, w')"
    by (cases r; simp)+
  have keep: "Q v \<Longrightarrow> for_each zs body v = (None, v') \<Longrightarrow> Q v'" for zs v v'
  proof (induction zs arbitrary: v)
    case Nil
    then show ?case by simp
  next
    case (Cons z zs)
    obtain r2 v2 where b2: "body z v = (r2, v2)" by (cases "body z v")
    with Cons.prems(2) have "r2 = None" and rest2: "for_each zs body v2 = (None, v')"
      by (cases r2; simp)+
    from pres [OF Cons.prems(1), of z] b2 have "Q v2" by simp
    with Cons.IH rest2 show ?case by blast
  qed
  show ?case
  proof (cases "x = y")
    case True
    with b r est have "Q w1" by blast
    with keep rest show ?thesis by blast
  next
    case False
    with Cons.prems(2) have "x \<in> set ys" by simp
    with Cons.IH rest show ?thesis by blast
  qed
qed

lemma platform_step_key:
  assumes "\<not> py_in_str ''variant'' platform"
  shows "platform \<in> keys_of (snd (platform_step parent manifest component platform_filter
      cuda_filter retrieve platform w))"
proof -
  let ?rest = "compute (ebind (py_getitem manifest component) (\<lambda>c. py_getitem c platform))
                (\<lambda>entry.
                   if \<not> is_str entry
                   then (if platform_filter \<noteq> None \<and> Some platform \<noteq> platform_filter
                            \<and> platform \<noteq> ''source''
                         then print (''  -> Skipping platform: '' @ platform)
                         else resolve_platform parent manifest component platform
                                cuda_filter retrieve entry)
                   else skip)"
  have k: "keeps_keys ?rest"
    by (intro keeps_keys_compute)
      (simp add: keeps_keys_print keeps_keys_resolve_platform keeps_keys_skip)
  obtain w1 where i: "archives_init platform w = (None, w1)"
    using archives_init_result [of platform w] by (cases "archives_init platform w") auto
  with archives_init_result [of platform w] have "platform \<in> keys_of w1" by simp
  with k have "platform \<in> keys_of (snd (?rest w1))" by (rule keeps_keysD)
  with assms i show ?thesis by (simp add: platform_step_def seq_def)
qed

subsection \<open>The platform filter (C7)\<close>

text \<open>
  C7. For a key of a component that is a platform (it does not contain \<^verbatim>\<open>variant\<close>
  and its value is not a string) and an active platform filter \<open>P\<close>: the key \<open>P\<close>
  itself and the key \<^verbatim>\<open>source\<close> go on to the resolution of their artifacts (of the one
  artifact, for a flat entry); every other key is skipped with the line
  \<^verbatim>\<open>"  -> Skipping platform: "\<close> and its name: nothing is requested, the file tree
  is as before and the list of every platform is as before.
\<close>

theorem platform_filter_source_passthrough:
  assumes "\<not> py_in_str ''variant'' platform"
    and "ebind (py_getitem manifest component) (\<lambda>c. py_getitem c platform) = Inr entry"
    and "\<not> is_str entry"
  shows "(platform = P \<or> platform = ''source'' \<longrightarrow>
            platform_step parent manifest component (Some P) cuda_filter retrieve platform =
              seq (archives_init platform)
                (resolve_platform parent manifest component platform cuda_filter retrieve entry))
       \<and> (py_in ''relative_path'' entry = Inr True \<longrightarrow>
            resolve_platform parent manifest component platform cuda_filter retrieve entry =
              parse_artifact parent manifest component platform retrieve None)
       \<and> (platform \<noteq> P \<and> platform \<noteq> ''source'' \<longrightarrow>
            fst (platform_step parent manifest component (Some P) cuda_filter retrieve
                   platform w) = None
            \<and> stdout (snd (platform_step parent manifest component (Some P) cuda_filter
                   retrieve platform w)) = stdout w @ [''  -> Skipping platform: '' @ platform]
            \<and> archives_of (snd (platform_step parent manifest component (Some P) cuda_filter
                   retrieve platform w)) k = archives_of w k
            \<and> root (snd (platform_step parent manifest component (Some P) cuda_filter
                   retrieve platform w)) = root w
            \<and> requests (snd (platform_step parent manifest component (Some P) cuda_filter
                   retrieve platform w)) = requests w)"
proof -
  obtain w1 where i: "archives_init platform w = (None, w1)"
    using archives_init_result [of platform w] by (cases "archives_init platform w") auto
  from archives_init_result [of platform w k] i
  have w1: "archives_of w1 k = archives_of w k" "root w1 = root w" "stdout w1 = stdout w"
    "requests w1 = requests w" by simp_all
  have pass: "platform = P \<or> platform = ''source'' \<Longrightarrow>
      platform_step parent manifest component (Some P) cuda_filter retrieve platform =
        seq (archives_init platform)
          (resolve_platform parent manifest component platform cuda_filter retrieve entry)"
    using assms by (auto simp: platform_step_def compute_def reading_def fun_eq_iff seq_def
        split: prod.splits option.splits)
  have flat: "py_in ''relative_path'' entry = Inr True \<Longrightarrow>
      resolve_platform parent manifest component platform cuda_filter retrieve entry =
        parse_artifact parent manifest component platform retrieve None"
    by (simp add: resolve_platform_def compute_def reading_def fun_eq_iff)
  have skipped: "platform \<noteq> P \<and> platform \<noteq> ''source'' \<Longrightarrow>
      platform_step parent manifest component (Some P) cuda_filter retrieve platform w =
        (None, w1\<lparr>stdout := stdout w1 @ [''  -> Skipping platform: '' @ platform]\<rparr>)"
    using assms i by (simp add: platform_step_def compute_def reading_def seq_def print_def)
  show ?thesis using pass flat skipped w1 by (auto simp: archives_of_def)
qed



lemma logged_unresolved_print:
  "logged_unresolved (snd (print l w)) =
     logged_unresolved w + (if prefix ''  -> Artifact: '' l then 1 else 0)"
  by (simp add: logged_unresolved_def print_def)








subsection \<open>The variants of a platform (C8)\<close>



lemma os_mkdir_ARCHIVES: "ARCHIVES (snd (os_mkdir p w)) = ARCHIVES w"
  by (auto simp: os_mkdir_def split: sum.splits option.splits)

lemma os_makedirs_ARCHIVES: "ARCHIVES (snd (os_makedirs ok name w)) = ARCHIVES w"
proof (induction ok name w rule: os_makedirs.induct)
  case (1 exist_ok name w)
  let ?c = "fst (makedirs_parts name) \<noteq> [] \<and> snd (makedirs_parts name) \<noteq> []
         \<and> \<not> os_path_exists w (fst (makedirs_parts name))"
  define mkd where "mkd = (\<lambda>v. case os_mkdir name v of
              (Some e, w2) \<Rightarrow>
                if \<not> exist_ok \<or> \<not> os_path_isdir w2 name then (Some e, w2) else (None, w2)
            | (None, w2) \<Rightarrow> (None, w2))"
  have mk: "ARCHIVES (snd (mkd v)) = ARCHIVES v" for v
    using os_mkdir_ARCHIVES [of name v]
    by (auto simp: mkd_def split: prod.splits option.splits)
  have eq: "os_makedirs exist_ok name w =
     (if ?c
      then (case except_FileExistsError_pass
                   (os_makedirs exist_ok (fst (makedirs_parts name))) w of
              (Some e, w1) \<Rightarrow> (Some e, w1)
            | (None, w1) \<Rightarrow> if snd (makedirs_parts name) = ''.'' then (None, w1) else mkd w1)
      else mkd w)"
    unfolding mkd_def by (rule os_makedirs.simps)
  show ?case
  proof (cases ?c)
    case False
    with eq have "os_makedirs exist_ok name w = mkd w" by presburger
    with mk show ?thesis by simp
  next
    case True
    obtain r w1 where h: "os_makedirs exist_ok (fst (makedirs_parts name)) w = (r, w1)"
      by (cases "os_makedirs exist_ok (fst (makedirs_parts name)) w")
    from "1.IH" [OF True, of w] h have a: "ARCHIVES w1 = ARCHIVES w" by simp
    have e: "except_FileExistsError_pass (os_makedirs exist_ok (fst (makedirs_parts name))) w
        = (if r = Some FileExistsError then None else r, w1)"
      using h by (cases r) (auto simp: except_FileExistsError_pass_def)
    from eq True have "os_makedirs exist_ok name w =
        (case except_FileExistsError_pass
                   (os_makedirs exist_ok (fst (makedirs_parts name))) w of
              (Some e, w1) \<Rightarrow> (Some e, w1)
            | (None, w1) \<Rightarrow> if snd (makedirs_parts name) = ''.'' then (None, w1) else mkd w1)"
      by presburger
    then show ?thesis
      using a mk [of w1] unfolding e by (auto split: option.splits if_splits)
  qed
qed

lemma os_path_exists_stdout [simp]:
  "os_path_exists (w\<lparr>stdout := s\<rparr>) p = os_path_exists w p"
  by (simp add: os_path_exists_def node_at_def resolve_path_def)

lemma for_each_empty_lists:
  "list_all (\<lambda>pa. snd pa = []) xs \<Longrightarrow>
     for_each xs (\<lambda>(platform, archives). for_each archives (body platform)) w = (None, w)"
  by (induction xs) auto

subsection \<open>Keys of \<^verbatim>\<open>ARCHIVES\<close> (C10)\<close>

text \<open>
  C10. A key of a component that does not contain \<^verbatim>\<open>variant\<close> is a key of
  \<^verbatim>\<open>ARCHIVES\<close> after its step of the loop, whatever the filter and the outcome; when
  it is new and the platform filter excludes it, it is mapped to the empty list. After a
  walk that returns, every such key of every component that has a \<^verbatim>\<open>name\<close> and
  passes the component filter is a key of \<^verbatim>\<open>ARCHIVES\<close>. And when \<^verbatim>\<open>ARCHIVES\<close> has
  a key and no archive at all, \<^verbatim>\<open>post_action\<close> still calls \<^verbatim>\<open>os.makedirs\<close> on an
  output directory that does not exist, and lists it.
\<close>

theorem archives_keys_before_filter:
  "(\<not> py_in_str ''variant'' platform \<longrightarrow>
      platform \<in> keys_of (snd (platform_step parent manifest component platform_filter
        cuda_filter retrieve platform w)))
   \<and> (\<not> py_in_str ''variant'' platform
       \<and> ebind (py_getitem manifest component) (\<lambda>c. py_getitem c platform) = Inr entry
       \<and> \<not> is_str entry \<and> platform \<noteq> P \<and> platform \<noteq> ''source'' \<and> platform \<notin> keys_of w \<longrightarrow>
      map_of (ARCHIVES (snd (platform_step parent manifest component (Some P) cuda_filter
        retrieve platform w))) platform = Some [])
   \<and> (fetch_action parent manifest component_filter platform_filter cuda_filter retrieve w
         = (None, w')
       \<and> manifest = JObj cs \<and> component \<in> set (map fst cs)
       \<and> py_getitem manifest component = Inr (JObj ps) \<and> ''name'' \<in> set (map fst ps)
       \<and> (component_filter = None \<or> component_filter = Some component)
       \<and> platform \<in> set (map fst ps) \<and> \<not> py_in_str ''variant'' platform \<longrightarrow>
      platform \<in> keys_of w')
   \<and> (ARCHIVES w \<noteq> [] \<and> list_all (\<lambda>pa. snd pa = []) (ARCHIVES w)
       \<and> \<not> os_path_exists w out \<longrightarrow>
      post_action (Some out) collapse w =
        seq (print (nl @ ''Archives:''))
          (seq (os_makedirs False out)
            (seq (print (nl @ ''Output: '' @ out @ ''/''))
               (reading (os_listdir out) (\<lambda>items. for_each (sort items) (list_item out))))) w)"
proof (intro conjI impI)
  assume "\<not> py_in_str ''variant'' platform"
  then show "platform \<in> keys_of (snd (platform_step parent manifest component platform_filter
        cuda_filter retrieve platform w))"
    by (rule platform_step_key)
next
  assume a: "\<not> py_in_str ''variant'' platform
       \<and> ebind (py_getitem manifest component) (\<lambda>c. py_getitem c platform) = Inr entry
       \<and> \<not> is_str entry \<and> platform \<noteq> P \<and> platform \<noteq> ''source'' \<and> platform \<notin> keys_of w"
  obtain w1 where i: "archives_init platform w = (None, w1)"
    using archives_init_result [of platform w] by (cases "archives_init platform w") auto
  from archives_init_result [of platform w] i a
  have w1: "map_of (ARCHIVES w1) platform = Some []" by simp
  have "platform_step parent manifest component (Some P) cuda_filter retrieve platform w =
        (None, w1\<lparr>stdout := stdout w1 @ [''  -> Skipping platform: '' @ platform]\<rparr>)"
    using a i by (simp add: platform_step_def compute_def reading_def seq_def print_def)
  with w1 show "map_of (ARCHIVES (snd (platform_step parent manifest component (Some P)
      cuda_filter retrieve platform w))) platform = Some []"
    by simp
next
  assume a: "fetch_action parent manifest component_filter platform_filter cuda_filter retrieve w
         = (None, w')
       \<and> manifest = JObj cs \<and> component \<in> set (map fst cs)
       \<and> py_getitem manifest component = Inr (JObj ps) \<and> ''name'' \<in> set (map fst ps)
       \<and> (component_filter = None \<or> component_filter = Some component)
       \<and> platform \<in> set (map fst ps) \<and> \<not> py_in_str ''variant'' platform"
  let ?pstep = "platform_step parent manifest component platform_filter cuda_filter retrieve"
  let ?cstep = "component_step parent manifest component_filter platform_filter cuda_filter
      retrieve"
  from a have loop: "for_each (map fst cs) ?cstep w = (None, w')"
    by (auto simp: fetch_action_def compute_def reading_def py_keys_def)
  have est: "platform \<in> keys_of v'" if c: "?cstep component v = (None, v')" for v v'
  proof -
    from a have entry: "py_getitem manifest component = Inr (JObj ps)"
      and nm: "py_in ''name'' (JObj ps) = Inr True"
      and ks: "py_keys (JObj ps) = Inr (map fst ps)"
      and cf: "component_filter = None \<or> component_filter = Some component"
      by (auto simp: py_in_def py_keys_def)
    from cf have u: "?cstep component v =
        compute (ebind (py_getitem (JObj ps) ''name'') py_str_operand) (\<lambda>name.
          compute (ebind (py_getitem (JObj ps) ''version'') py_str_operand) (\<lambda>version.
            seq (print (nl @ name @ '': '' @ version)) (for_each (map fst ps) ?pstep))) v"
      by (auto simp: component_step_def compute_Inr entry nm ks)
    obtain name where name: "ebind (py_getitem (JObj ps) ''name'') py_str_operand = Inr name"
      using c unfolding u
      by (cases "ebind (py_getitem (JObj ps) ''name'') py_str_operand")
        (simp_all add: compute_def reading_def)
    obtain version where
      version: "ebind (py_getitem (JObj ps) ''version'') py_str_operand = Inr version"
      using c name unfolding u
      by (cases "ebind (py_getitem (JObj ps) ''version'') py_str_operand")
        (simp_all add: compute_def reading_def)
    from c name version
    have inner: "for_each (map fst ps) ?pstep
        (v\<lparr>stdout := stdout v @ [nl @ name @ '': '' @ version]\<rparr>) = (None, v')"
      unfolding u by (simp add: compute_def reading_def seq_def print_def)
    show ?thesis
    proof (rule for_each_establishes [OF inner, of platform])
      show "platform \<in> set (map fst ps)" using a by simp
    next
      fix u u'
      assume "?pstep platform u = (None, u')"
      with platform_step_key [of platform parent manifest component platform_filter cuda_filter
          retrieve u] a
      show "platform \<in> keys_of u'" by simp
    next
      fix y u
      assume "platform \<in> keys_of u"
      with keeps_keys_platform_step show "platform \<in> keys_of (snd (?pstep y u))"
        by (rule keeps_keysD)
    qed
  qed
  show "platform \<in> keys_of w'"
  proof (rule for_each_establishes [OF loop, of component])
    show "component \<in> set (map fst cs)" using a by simp
  next
    fix v v'
    assume "?cstep component v = (None, v')"
    then show "platform \<in> keys_of v'" by (rule est)
  next
    fix y v
    assume "platform \<in> keys_of v"
    with keeps_keys_component_step show "platform \<in> keys_of (snd (?cstep y v))"
      by (rule keeps_keysD)
  qed
next
  assume a: "ARCHIVES w \<noteq> [] \<and> list_all (\<lambda>pa. snd pa = []) (ARCHIVES w)
       \<and> \<not> os_path_exists w out"
  let ?w0 = "w\<lparr>stdout := stdout w @ [nl @ ''Archives:'']\<rparr>"
  obtain r w1 where mk: "os_makedirs False out ?w0 = (r, w1)"
    by (cases "os_makedirs False out ?w0")
  from os_makedirs_ARCHIVES [of False out ?w0] mk have "ARCHIVES w1 = ARCHIVES w" by simp
  with a have loop: "for_each (ARCHIVES w1)
      (\<lambda>(platform, archives). for_each archives (ingest_archive out collapse platform)) w1
        = (None, w1)"
    by (simp add: for_each_empty_lists)
  from a mk loop show "post_action (Some out) collapse w =
        seq (print (nl @ ''Archives:''))
          (seq (os_makedirs False out)
            (seq (print (nl @ ''Output: '' @ out @ ''/''))
               (reading (os_listdir out) (\<lambda>items. for_each (sort items) (list_item out))))) w"
    by (cases r) (simp_all add: post_action_def seq_def print_def)
qed



lemma tarfile_open_stdout [simp]:
  "tarfile_open p (w\<lparr>stdout := s\<rparr>) = tarfile_open p w"
  by (simp add: tarfile_open_def read_file_def node_at_def resolve_path_def)

lemma zipfile_open_stdout [simp]:
  "zipfile_open p (w\<lparr>stdout := s\<rparr>) = zipfile_open p w"
  by (simp add: zipfile_open_def read_file_def node_at_def resolve_path_def)

subsection \<open>The tag of an archive (C5)\<close>

lemma py_split_prepend:
  "c \<notin> set d \<Longrightarrow>
     py_split c (d @ s) = (d @ hd (py_split c s)) # tl (py_split c s)"
proof (induction d)
  case Nil
  then show ?case using py_split_nonempty [of c s] by (cases "py_split c s") auto
next
  case (Cons x d)
  then show ?case by (auto split: list.splits)
qed

lemma binTag_of_prepend:
  assumes "CHR ''-'' \<notin> set d"
  shows "binTag_of (d @ name) = binTag_of name"
proof -
  obtain y ys where ys: "py_split CHR ''-'' name = y # ys"
    using py_split_nonempty [of "CHR ''-''" name] by (cases "py_split CHR ''-'' name") auto
  with py_split_prepend [OF assms, of name]
  have "py_split CHR ''-'' (d @ name) = (d @ y) # ys" by simp
  with ys show ?thesis by (simp add: binTag_of_def py_index_def ebind_def)
qed

text \<open>
  C5, as the claim states it, fails: what is split is the record, and a record is the
  path at which the artifact was found when that is not the working directory. In the
  run \<open>ex_mirror\<close> the archive is found at its full path. Its file name has no piece
  with an underscore at index 3, so that splitting the file name gives no tag; the path
  has hyphens in its directories, the piece of index 3 is \<^verbatim>\<open>x86_64\<close>, the tag is
  \<^verbatim>\<open>64\<close>, and the files are flattened into \<^verbatim>\<open>out/linux-x86_64/64\<close>.
\<close>

theorem binTag_of_path_example:
  "fst (main ex_cudart_args ex_mirror) = 0
   \<and> archives_of (snd (main ex_cudart_args ex_mirror)) ''linux-x86_64'' =
        [''https://developer.download.nvidia.com/compute/cuda/redist/cuda_cudart/linux-x86_64/cuda_cudart-linux-x86_64-12.4.99-archive.tar.xz'']
   \<and> basename ''https://developer.download.nvidia.com/compute/cuda/redist/cuda_cudart/linux-x86_64/cuda_cudart-linux-x86_64-12.4.99-archive.tar.xz''
        = ''cuda_cudart-linux-x86_64-12.4.99-archive.tar.xz''
   \<and> binTag_of ''cuda_cudart-linux-x86_64-12.4.99-archive.tar.xz'' = None
   \<and> binTag_of ''https://developer.download.nvidia.com/compute/cuda/redist/cuda_cudart/linux-x86_64/cuda_cudart-linux-x86_64-12.4.99-archive.tar.xz''
        = Some ''64''
   \<and> os_path_isfile (snd (main ex_cudart_args ex_mirror)) ''out/linux-x86_64/64/x''
   \<and> \<not> os_path_exists (snd (main ex_cudart_args ex_mirror)) ''out/linux-x86_64/x''"
  by code_simp

text \<open>
  C5, amended. The record of the archive, as it is stored in \<^verbatim>\<open>ARCHIVES\<close>, is split at
  \<^verbatim>\<open>-\<close>, which gives one piece more than it has hyphens. With fewer than three
  hyphens there is no piece of index 3 and the tag is absent; otherwise that piece is
  split at \<^verbatim>\<open>_\<close>, and the tag is its piece of index 1, absent when the piece has no
  underscore. \<open>binTag_of\<close> is a total function: no shape of the record raises. The tag of
  the record is the tag of its file name when the directories in front of the file name
  have no hyphen, as for a record that is a file name. An archive that has been opened
  and extracted and whose files have been made writable is flattened with the tag of its
  record; with an absent tag \<^verbatim>\<open>flatten_tree\<close> copies into \<^verbatim>\<open>output_dir/platform\<close>
  itself.
\<close>

theorem binTag_of_record:
  "length (py_split CHR ''-'' archive) = Suc (count_list archive CHR ''-'')
   \<and> (count_list archive CHR ''-'' < 3 \<longrightarrow> binTag_of archive = None)
   \<and> (3 \<le> count_list archive CHR ''-'' \<longrightarrow>
        binTag_of archive =
          (if count_list (py_split CHR ''-'' archive ! 3) CHR ''_'' = 0 then None
           else Some (py_split CHR ''_'' (py_split CHR ''-'' archive ! 3) ! 1)))
   \<and> (archive = d @ basename archive \<and> CHR ''-'' \<notin> set d \<longrightarrow>
        binTag_of archive = binTag_of (basename archive))
   \<and> (py_in_str ''.tar.'' archive \<and> tarfile_open archive w = Inr members
       \<and> for_each members tar_extract (w\<lparr>stdout := stdout w @ ['':: tar: '' @ archive]\<rparr>)
            = (None, w1)
       \<and> fix_permissions (commonprefix (map fst members))
            (w1\<lparr>stdout := stdout w1
               @ [''  -> Extracted: '' @ commonprefix (map fst members) @ ''/'']\<rparr>) = (None, w2)
       \<longrightarrow>
        ingest_archive out True platform archive w =
          seq (flatten_tree (commonprefix (map fst members)) (join out platform)
                 (binTag_of archive))
              (print (''  -> Flattened: '' @ join out platform @ ''/'')) w2)
   \<and> (\<not> py_in_str ''.tar.'' archive \<and> py_in_str ''.zip'' archive
       \<and> zipfile_open archive w = Inr members
       \<and> for_each members zip_extract (w\<lparr>stdout := stdout w @ ['':: zip: '' @ archive]\<rparr>)
            = (None, w1)
       \<and> fix_permissions (commonprefix (map fst members))
            (w1\<lparr>stdout := stdout w1
               @ [''  -> Extracted: '' @ commonprefix (map fst members)]\<rparr>) = (None, w2)
       \<longrightarrow>
        ingest_archive out True platform archive w =
          seq (flatten_tree (commonprefix (map fst members)) (join out platform)
                 (binTag_of archive))
              (print (''  -> Flattened: '' @ join out platform @ ''/'')) w2)
   \<and> (binTag_of archive = None \<longrightarrow>
        flatten_tree src (join out platform) (binTag_of archive) =
          seq (except_FileExistsError_pass (shutil_copytree src (join out platform)))
              (shutil_rmtree src))"
proof (intro conjI impI)
  show "length (py_split CHR ''-'' archive) = Suc (count_list archive CHR ''-'')"
    by (rule length_py_split)
next
  assume "count_list archive CHR ''-'' < 3"
  then show "binTag_of archive = None"
    by (simp add: binTag_of_def py_index_def ebind_def length_py_split)
next
  assume "3 \<le> count_list archive CHR ''-''"
  then show "binTag_of archive =
          (if count_list (py_split CHR ''-'' archive ! 3) CHR ''_'' = 0 then None
           else Some (py_split CHR ''_'' (py_split CHR ''-'' archive ! 3) ! 1))"
    by (auto simp: binTag_of_def py_index_def ebind_def length_py_split)
next
  assume a: "archive = d @ basename archive \<and> CHR ''-'' \<notin> set d"
  then have "binTag_of (d @ basename archive) = binTag_of (basename archive)"
    by (intro binTag_of_prepend) simp
  with a show "binTag_of archive = binTag_of (basename archive)" by simp
next
  assume "py_in_str ''.tar.'' archive \<and> tarfile_open archive w = Inr members
       \<and> for_each members tar_extract (w\<lparr>stdout := stdout w @ ['':: tar: '' @ archive]\<rparr>)
            = (None, w1)
       \<and> fix_permissions (commonprefix (map fst members))
            (w1\<lparr>stdout := stdout w1
               @ [''  -> Extracted: '' @ commonprefix (map fst members) @ ''/'']\<rparr>) = (None, w2)"
  then show "ingest_archive out True platform archive w =
          seq (flatten_tree (commonprefix (map fst members)) (join out platform)
                 (binTag_of archive))
              (print (''  -> Flattened: '' @ join out platform @ ''/'')) w2"
    by (simp add: ingest_archive_def tar_branch_def after_extract_def seq_def print_def
        reading_def)
next
  assume "\<not> py_in_str ''.tar.'' archive \<and> py_in_str ''.zip'' archive
       \<and> zipfile_open archive w = Inr members
       \<and> for_each members zip_extract (w\<lparr>stdout := stdout w @ ['':: zip: '' @ archive]\<rparr>)
            = (None, w1)
       \<and> fix_permissions (commonprefix (map fst members))
            (w1\<lparr>stdout := stdout w1
               @ [''  -> Extracted: '' @ commonprefix (map fst members)]\<rparr>) = (None, w2)"
  then show "ingest_archive out True platform archive w =
          seq (flatten_tree (commonprefix (map fst members)) (join out platform)
                 (binTag_of archive))
              (print (''  -> Flattened: '' @ join out platform @ ''/'')) w2"
    by (simp add: ingest_archive_def zip_branch_def after_extract_def seq_def print_def
        reading_def)
next
  assume "binTag_of archive = None"
  then show "flatten_tree src (join out platform) (binTag_of archive) =
          seq (except_FileExistsError_pass (shutil_copytree src (join out platform)))
              (shutil_rmtree src)"
    by (simp add: flatten_tree_def flatten_dest_def)
qed

theorem binTag_of_record_witness:
  "count_list ''a-b.tar.gz'' CHR ''-'' < 3
   \<and> binTag_of ''a-b.tar.gz'' = None
   \<and> flatten_tree ''t'' (join ''out'' ''p'') (binTag_of ''a-b.tar.gz'') =
       seq (except_FileExistsError_pass (shutil_copytree ''t'' (join ''out'' ''p'')))
           (shutil_rmtree ''t'')
   \<and> 3 \<le> count_list ''cudnn-linux-x86_64-8.9_cuda12-archive.tar.xz'' CHR ''-''
   \<and> binTag_of ''cudnn-linux-x86_64-8.9_cuda12-archive.tar.xz'' = Some ''cuda12''
   \<and> 3 \<le> count_list ''libcudart-linux-x86_64-12.4.0-archive.tar.xz'' CHR ''-''
   \<and> binTag_of ''libcudart-linux-x86_64-12.4.0-archive.tar.xz'' = None
   \<and> ''/w/c/p/cudnn-linux-x86_64-8.9_cuda12-archive.tar.xz'' =
        ''/w/c/p/'' @ basename ''/w/c/p/cudnn-linux-x86_64-8.9_cuda12-archive.tar.xz''
   \<and> CHR ''-'' \<notin> set ''/w/c/p/''
   \<and> binTag_of ''/w/c/p/cudnn-linux-x86_64-8.9_cuda12-archive.tar.xz'' = Some ''cuda12''
   \<and> py_in_str ''.tar.'' ''cudnn-linux-x86_64-8.9_cuda12-archive.tar.xz''
   \<and> tarfile_open ''cudnn-linux-x86_64-8.9_cuda12-archive.tar.xz'' ex_tagged =
        Inr [(''t/x'', MFile 420 ''1''), (''t/y'', MFile 420 ''2'')]
   \<and> fst (ingest_archive ''out'' True ''p'' ''cudnn-linux-x86_64-8.9_cuda12-archive.tar.xz''
        ex_tagged) = None
   \<and> os_path_isfile (snd (ingest_archive ''out'' True ''p''
        ''cudnn-linux-x86_64-8.9_cuda12-archive.tar.xz'' ex_tagged)) ''out/p/cuda12/x''
   \<and> \<not> py_in_str ''.tar.'' ''a.zipx'' \<and> py_in_str ''.zip'' ''a.zipx''
   \<and> zipfile_open ''a.zipx'' ex_zipx = Inr [(''t/x'', MFile 420 ''data''), (''t/y'', MFile 420 ''more'')]
   \<and> fst (ingest_archive ''out'' True ''p'' ''a.zipx'' ex_zipx) = None
   \<and> os_path_isfile (snd (ingest_archive ''out'' True ''p'' ''a.zipx'' ex_zipx)) ''out/p/x''"
proof -
  let ?R = "''cudnn-linux-x86_64-8.9_cuda12-archive.tar.xz''"
  let ?ms = "[(''t/x'', MFile 420 ''1''), (''t/y'', MFile 420 ''2'')]"
  let ?zs = "[(''t/x'', MFile 420 ''data''), (''t/y'', MFile 420 ''more'')]"
  note th1 = binTag_of_record [where archive = "''a-b.tar.gz''" and src = "''t''"
      and out = "''out''" and platform = "''p''"]
  have a1: "count_list ''a-b.tar.gz'' CHR ''-'' < 3" by code_simp
  from th1 a1 have a2: "binTag_of ''a-b.tar.gz'' = None" by blast
  from th1 a2 have a3: "flatten_tree ''t'' (join ''out'' ''p'') (binTag_of ''a-b.tar.gz'') =
       seq (except_FileExistsError_pass (shutil_copytree ''t'' (join ''out'' ''p'')))
           (shutil_rmtree ''t'')" by blast
  have b1: "3 \<le> count_list ?R CHR ''-''" by code_simp
  have b2: "(if count_list (py_split CHR ''-'' ?R ! 3) CHR ''_'' = 0 then None
           else Some (py_split CHR ''_'' (py_split CHR ''-'' ?R ! 3) ! 1)) = Some ''cuda12''"
    by code_simp
  define W1 where "W1 = snd (for_each ?ms tar_extract
      (ex_tagged\<lparr>stdout := stdout ex_tagged @ ['':: tar: '' @ ?R]\<rparr>))"
  define W1' where "W1' = W1\<lparr>stdout := stdout W1
      @ [''  -> Extracted: '' @ commonprefix (map fst ?ms) @ ''/'']\<rparr>"
  define W2 where "W2 = snd (fix_permissions (commonprefix (map fst ?ms)) W1')"
  note Ws = W2_def W1'_def W1_def
  have t1: "py_in_str ''.tar.'' ?R" by code_simp
  have t2: "tarfile_open ?R ex_tagged = Inr ?ms" by code_simp
  have "fst (for_each ?ms tar_extract (ex_tagged\<lparr>stdout := stdout ex_tagged @ ['':: tar: '' @ ?R]\<rparr>))
      = None" by code_simp
  then have t3: "for_each ?ms tar_extract
      (ex_tagged\<lparr>stdout := stdout ex_tagged @ ['':: tar: '' @ ?R]\<rparr>) = (None, W1)"
    unfolding W1_def by (metis prod.collapse)
  have "fst (fix_permissions (commonprefix (map fst ?ms)) W1') = None"
    unfolding Ws by code_simp
  then have t4: "fix_permissions (commonprefix (map fst ?ms))
      (W1\<lparr>stdout := stdout W1 @ [''  -> Extracted: '' @ commonprefix (map fst ?ms) @ ''/'']\<rparr>)
      = (None, W2)"
    unfolding W2_def W1'_def by (metis prod.collapse)
  note th2 = binTag_of_record [where archive = ?R and w = ex_tagged and members = ?ms
      and ?w1.0 = W1 and ?w2.0 = W2 and out = "''out''" and platform = "''p''"]
  from th2 b1 b2 have b3: "binTag_of ?R = Some ''cuda12''" by (simp only:)
  from th2 t1 t2 t3 t4 have t5: "ingest_archive ''out'' True ''p'' ?R ex_tagged =
      seq (flatten_tree (commonprefix (map fst ?ms)) (join ''out'' ''p'') (binTag_of ?R))
          (print (''  -> Flattened: '' @ join ''out'' ''p'' @ ''/'')) W2"
    by blast
  have "fst (seq (flatten_tree (commonprefix (map fst ?ms)) (join ''out'' ''p'') (Some ''cuda12''))
          (print (''  -> Flattened: '' @ join ''out'' ''p'' @ ''/'')) W2) = None"
    unfolding Ws by code_simp
  then have t6: "fst (ingest_archive ''out'' True ''p'' ?R ex_tagged) = None"
    unfolding t5 b3 .
  have "os_path_isfile (snd (seq (flatten_tree (commonprefix (map fst ?ms)) (join ''out'' ''p'')
          (Some ''cuda12'')) (print (''  -> Flattened: '' @ join ''out'' ''p'' @ ''/'')) W2))
        ''out/p/cuda12/x''"
    unfolding Ws by code_simp
  then have t7: "os_path_isfile (snd (ingest_archive ''out'' True ''p'' ?R ex_tagged))
      ''out/p/cuda12/x''"
    unfolding t5 b3 .
  note th3 = binTag_of_record [where archive = "''libcudart-linux-x86_64-12.4.0-archive.tar.xz''"]
  have c1: "3 \<le> count_list ''libcudart-linux-x86_64-12.4.0-archive.tar.xz'' CHR ''-''"
    by code_simp
  have c2: "(if count_list (py_split CHR ''-'' ''libcudart-linux-x86_64-12.4.0-archive.tar.xz'' ! 3)
            CHR ''_'' = 0 then None
           else Some (py_split CHR ''_''
             (py_split CHR ''-'' ''libcudart-linux-x86_64-12.4.0-archive.tar.xz'' ! 3) ! 1)) = None"
    by code_simp
  from th3 c1 c2 have c3: "binTag_of ''libcudart-linux-x86_64-12.4.0-archive.tar.xz'' = None"
    by (simp only:)
  note th4 = binTag_of_record [where archive = "''/w/c/p/cudnn-linux-x86_64-8.9_cuda12-archive.tar.xz''"
      and d = "''/w/c/p/''"]
  have d1: "''/w/c/p/cudnn-linux-x86_64-8.9_cuda12-archive.tar.xz'' =
        ''/w/c/p/'' @ basename ''/w/c/p/cudnn-linux-x86_64-8.9_cuda12-archive.tar.xz''"
    by code_simp
  have d2: "CHR ''-'' \<notin> set ''/w/c/p/''" by simp
  have d3: "basename ''/w/c/p/cudnn-linux-x86_64-8.9_cuda12-archive.tar.xz'' = ?R" by code_simp
  from th4 d1 d2 have "binTag_of ''/w/c/p/cudnn-linux-x86_64-8.9_cuda12-archive.tar.xz'' =
      binTag_of (basename ''/w/c/p/cudnn-linux-x86_64-8.9_cuda12-archive.tar.xz'')" by blast
  then have d4: "binTag_of ''/w/c/p/cudnn-linux-x86_64-8.9_cuda12-archive.tar.xz'' = Some ''cuda12''"
    unfolding d3 b3 .
  define Z1 where "Z1 = snd (for_each ?zs zip_extract
      (ex_zipx\<lparr>stdout := stdout ex_zipx @ ['':: zip: '' @ ''a.zipx'']\<rparr>))"
  define Z1' where "Z1' = Z1\<lparr>stdout := stdout Z1
      @ [''  -> Extracted: '' @ commonprefix (map fst ?zs)]\<rparr>"
  define Z2 where "Z2 = snd (fix_permissions (commonprefix (map fst ?zs)) Z1')"
  note Zs = Z2_def Z1'_def Z1_def
  have z1: "\<not> py_in_str ''.tar.'' ''a.zipx''" by code_simp
  have z2: "py_in_str ''.zip'' ''a.zipx''" by code_simp
  have z3: "zipfile_open ''a.zipx'' ex_zipx = Inr ?zs" by code_simp
  have "fst (for_each ?zs zip_extract (ex_zipx\<lparr>stdout := stdout ex_zipx @ ['':: zip: '' @ ''a.zipx'']\<rparr>))
      = None" by code_simp
  then have z4: "for_each ?zs zip_extract
      (ex_zipx\<lparr>stdout := stdout ex_zipx @ ['':: zip: '' @ ''a.zipx'']\<rparr>) = (None, Z1)"
    unfolding Z1_def by (metis prod.collapse)
  have "fst (fix_permissions (commonprefix (map fst ?zs)) Z1') = None"
    unfolding Zs by code_simp
  then have z5: "fix_permissions (commonprefix (map fst ?zs))
      (Z1\<lparr>stdout := stdout Z1 @ [''  -> Extracted: '' @ commonprefix (map fst ?zs)]\<rparr>)
      = (None, Z2)"
    unfolding Z2_def Z1'_def by (metis prod.collapse)
  note th5 = binTag_of_record [where archive = "''a.zipx''" and w = ex_zipx and members = ?zs
      and ?w1.0 = Z1 and ?w2.0 = Z2 and out = "''out''" and platform = "''p''"]
  have z0: "count_list ''a.zipx'' CHR ''-'' < 3" by code_simp
  from th5 z0 have z6: "binTag_of ''a.zipx'' = None" by blast
  from th5 z1 z2 z3 z4 z5 have z7: "ingest_archive ''out'' True ''p'' ''a.zipx'' ex_zipx =
      seq (flatten_tree (commonprefix (map fst ?zs)) (join ''out'' ''p'') (binTag_of ''a.zipx''))
          (print (''  -> Flattened: '' @ join ''out'' ''p'' @ ''/'')) Z2"
    by blast
  have "fst (seq (flatten_tree (commonprefix (map fst ?zs)) (join ''out'' ''p'') None)
          (print (''  -> Flattened: '' @ join ''out'' ''p'' @ ''/'')) Z2) = None"
    unfolding Zs by code_simp
  then have z8: "fst (ingest_archive ''out'' True ''p'' ''a.zipx'' ex_zipx) = None"
    unfolding z7 z6 .
  have "os_path_isfile (snd (seq (flatten_tree (commonprefix (map fst ?zs)) (join ''out'' ''p'')
          None) (print (''  -> Flattened: '' @ join ''out'' ''p'' @ ''/'')) Z2)) ''out/p/x''"
    unfolding Zs by code_simp
  then have z9: "os_path_isfile (snd (ingest_archive ''out'' True ''p'' ''a.zipx'' ex_zipx))
      ''out/p/x''"
    unfolding z7 z6 .
  show ?thesis
    using a1 a2 a3 b1 b3 c1 c3 d1 d2 d4 t1 t2 t6 t7 z1 z2 z3 z8 z9 by blast
qed


subsection \<open>Failures and the exit status (C3)\<close>

lemma for_each_pairs:
  "for_each xs (\<lambda>(p, ys). for_each ys (f p)) w =
     for_each (concat (map (\<lambda>(p, ys). map (Pair p) ys) xs)) (\<lambda>(p, y). f p y) w"
  by (induction xs arbitrary: w)
    (auto simp: for_each_append for_each_map split: prod.splits option.splits)

lemma for_each_raises:
  assumes "for_each before f w = (None, w1)" and "f x w1 = (Some e, w2)"
  shows "for_each (before @ x # rest) f w = (Some e, w2)"
  using assms by (simp add: for_each_append)

lemma post_action_raises:
  assumes prep: "(if os_path_exists w out
                  then (None, w\<lparr>stdout := stdout w @ [nl @ ''Archives:'']\<rparr>)
                  else os_makedirs False out (w\<lparr>stdout := stdout w @ [nl @ ''Archives:'']\<rparr>))
                 = (None, w2)"
    and order: "ingestion_order w = before @ (platform, archive) # rest"
    and ok: "for_each before (\<lambda>(p, x). ingest_archive out collapse p x) w2 = (None, w3)"
    and fail: "ingest_archive out collapse platform archive w3 = (Some e, w4)"
  shows "post_action (Some out) collapse w = (Some e, w4)"
proof -
  let ?w0 = "w\<lparr>stdout := stdout w @ [nl @ ''Archives:'']\<rparr>"
  from order have ne: "ARCHIVES w \<noteq> []" by (auto simp: ingestion_order_def)
  have "ARCHIVES w2 = ARCHIVES ?w0"
    using prep os_makedirs_ARCHIVES [of False out ?w0] by (auto split: if_splits)
  then have o2: "ingestion_order w2 = before @ (platform, archive) # rest"
    using order by (simp add: ingestion_order_def)
  have loop: "for_each (ARCHIVES w2)
      (\<lambda>(platform, archives). for_each archives (ingest_archive out collapse platform)) w2
        = (Some e, w4)"
    unfolding for_each_pairs
    using for_each_raises [OF ok, of "(platform, archive)" e w4 rest] fail o2
    by (simp add: ingestion_order_def)
  have prep': "(if \<not> os_path_exists ?w0 out then os_makedirs False out ?w0 else (None, ?w0))
      = (None, w2)"
    using prep by (simp split: if_splits)
  show ?thesis
    using ne prep' loop
    by (simp add: post_action_def seq_def print_def del: os_path_exists_stdout)
qed

lemma main_exit:
  "download_only a w = (Some e, w1) \<Longrightarrow>
     main a w = (1, w1\<lparr>stderr := stderr w1 @ [Error_during_download e]\<rparr>)"
  "download_only a w = (None, w1) \<Longrightarrow> main a w = (0, w1)"
  by (simp_all add: main_def)

lemma download_only_loaded:
  assumes "net w (manifest_uri_of a) = Inr (status, body)" "200 \<le> status" "status < 300"
    and "json_loads body = Inr manifest"
  shows "download_only a w =
      seq (fetch_action (parent_of a) manifest (arg_component a) (Some (platform_of a))
             (arg_variant a) True)
          (post_action (arg_output a) True) (w\<lparr>requests := requests w @ [manifest_uri_of a]\<rparr>)"
  using assms by (simp add: download_only_def urlopen_response compute_Inr)

text \<open>
  C3, as the claim states it, fails: in the run \<open>ex_corrupt\<close> the manifest is loaded
  and both artifacts are fetched; the first archive cannot be opened; the second one is
  never looked at, nothing is flattened for it, and the exit status is 1, with one
  message on \<^verbatim>\<open>stderr\<close>.
\<close>

theorem corrupt_archive_exit_status_example:
  "fst (main ex_args ex_corrupt) = 1
   \<and> ARCHIVES (snd (main ex_args ex_corrupt)) =
        [(''name'', []), (''version'', []), (''lin-x'', [''f.tar.gz'']),
         (''source'', [''s.tar.gz''])]
   \<and> tarfile_open ''f.tar.gz'' (snd (main ex_args ex_corrupt)) = Inl ReadError
   \<and> '':: tar: f.tar.gz'' \<in> set (stdout (snd (main ex_args ex_corrupt)))
   \<and> '':: tar: s.tar.gz'' \<notin> set (stdout (snd (main ex_args ex_corrupt)))
   \<and> \<not> os_path_exists (snd (main ex_args ex_corrupt)) ''out/source''
   \<and> stderr (snd (main ex_args ex_corrupt)) = [Error_during_download ReadError]"
  by code_simp

text \<open>
  C3, amended. Let the manifest be loaded, the walk return, and the output directory
  exist or be made. When the ingestion of an archive raises, after the archives before
  it have been ingested, the run ends there: its final state is the state in which that
  archive raised, with one message for the exception on \<^verbatim>\<open>stderr\<close>, and the exit status
  is 1. The ingestion of an archive raises when the archive cannot be opened, and when
  the extraction of a member raises. A manifest that cannot be fetched, or that is
  answered with a status outside 200 to 299, or that is not JSON, ends the run in the
  same way with nothing done but the request. Every exception of the body of the run
  ends it with one message and the exit status 1, and the exit status is 0 when the body
  raised nothing.
\<close>

theorem extraction_failure_ends_run:
  "(net w (manifest_uri_of a) = Inr (status, body) \<and> 200 \<le> status \<and> status < 300
      \<and> json_loads body = Inr manifest
      \<and> fetch_action (parent_of a) manifest (arg_component a) (Some (platform_of a))
           (arg_variant a) True (w\<lparr>requests := requests w @ [manifest_uri_of a]\<rparr>) = (None, w1)
      \<and> arg_output a = Some out
      \<and> (if os_path_exists w1 out
          then (None, w1\<lparr>stdout := stdout w1 @ [nl @ ''Archives:'']\<rparr>)
          else os_makedirs False out (w1\<lparr>stdout := stdout w1 @ [nl @ ''Archives:'']\<rparr>))
           = (None, w2)
      \<and> ingestion_order w1 = before @ (platform, archive) # rest
      \<and> for_each before (\<lambda>(p, x). ingest_archive out True p x) w2 = (None, w3)
      \<and> ingest_archive out True platform archive w3 = (Some e, w4) \<longrightarrow>
    main a w = (1, w4\<lparr>stderr := stderr w4 @ [Error_during_download e]\<rparr>))
   \<and> (py_in_str ''.tar.'' archive \<and> tarfile_open archive w3 = Inl e \<longrightarrow>
        ingest_archive out collapse platform archive w3 =
          (Some e, w3\<lparr>stdout := stdout w3 @ ['':: tar: '' @ archive]\<rparr>))
   \<and> (py_in_str ''.tar.'' archive \<and> tarfile_open archive w3 = Inr members
        \<and> for_each members tar_extract (w3\<lparr>stdout := stdout w3 @ ['':: tar: '' @ archive]\<rparr>)
             = (Some e, w4) \<longrightarrow>
        ingest_archive out collapse platform archive w3 = (Some e, w4))
   \<and> (\<not> py_in_str ''.tar.'' archive \<and> py_in_str ''.zip'' archive
        \<and> zipfile_open archive w3 = Inl e \<longrightarrow>
        ingest_archive out collapse platform archive w3 =
          (Some e, w3\<lparr>stdout := stdout w3 @ ['':: zip: '' @ archive]\<rparr>))
   \<and> (\<not> py_in_str ''.tar.'' archive \<and> py_in_str ''.zip'' archive
        \<and> zipfile_open archive w3 = Inr members
        \<and> for_each members zip_extract (w3\<lparr>stdout := stdout w3 @ ['':: zip: '' @ archive]\<rparr>)
             = (Some e, w4) \<longrightarrow>
        ingest_archive out collapse platform archive w3 = (Some e, w4))
   \<and> (net w (manifest_uri_of a) = Inl e \<longrightarrow>
        main a w = (1, w\<lparr>requests := requests w @ [manifest_uri_of a],
                          stderr := stderr w @ [Error_during_download e]\<rparr>))
   \<and> (net w (manifest_uri_of a) = Inr (status, body) \<and> \<not> (200 \<le> status \<and> status < 300) \<longrightarrow>
        main a w = (1, w\<lparr>requests := requests w @ [manifest_uri_of a],
                          stderr := stderr w @ [Error_during_download (HTTPError status)]\<rparr>))
   \<and> (net w (manifest_uri_of a) = Inr (status, body) \<and> 200 \<le> status \<and> status < 300
        \<and> json_loads body = Inl e \<longrightarrow>
        main a w = (1, w\<lparr>requests := requests w @ [manifest_uri_of a],
                          stderr := stderr w @ [Error_during_download e]\<rparr>))
   \<and> (download_only a w = (Some e, w1) \<longrightarrow>
        main a w = (1, w1\<lparr>stderr := stderr w1 @ [Error_during_download e]\<rparr>))
   \<and> (download_only a w = (None, w1) \<longrightarrow> main a w = (0, w1))"
proof (intro conjI impI)
  assume h: "net w (manifest_uri_of a) = Inr (status, body) \<and> 200 \<le> status \<and> status < 300
      \<and> json_loads body = Inr manifest
      \<and> fetch_action (parent_of a) manifest (arg_component a) (Some (platform_of a))
           (arg_variant a) True (w\<lparr>requests := requests w @ [manifest_uri_of a]\<rparr>) = (None, w1)
      \<and> arg_output a = Some out
      \<and> (if os_path_exists w1 out
          then (None, w1\<lparr>stdout := stdout w1 @ [nl @ ''Archives:'']\<rparr>)
          else os_makedirs False out (w1\<lparr>stdout := stdout w1 @ [nl @ ''Archives:'']\<rparr>))
           = (None, w2)
      \<and> ingestion_order w1 = before @ (platform, archive) # rest
      \<and> for_each before (\<lambda>(p, x). ingest_archive out True p x) w2 = (None, w3)
      \<and> ingest_archive out True platform archive w3 = (Some e, w4)"
  then have pa: "post_action (Some out) True w1 = (Some e, w4)"
    by (intro post_action_raises [where ?w2.0 = w2 and ?w3.0 = w3 and before = before
          and rest = rest and platform = platform and archive = archive]) simp_all
  from h have "download_only a w = (Some e, w4)"
    using pa by (simp add: download_only_loaded [where manifest = manifest] seq_def)
  then show "main a w = (1, w4\<lparr>stderr := stderr w4 @ [Error_during_download e]\<rparr>)"
    by (rule main_exit)
next
  assume "py_in_str ''.tar.'' archive \<and> tarfile_open archive w3 = Inl e"
  then show "ingest_archive out collapse platform archive w3 =
          (Some e, w3\<lparr>stdout := stdout w3 @ ['':: tar: '' @ archive]\<rparr>)"
    by (simp add: ingest_archive_def tar_branch_def seq_def print_def reading_def)
next
  assume "py_in_str ''.tar.'' archive \<and> tarfile_open archive w3 = Inr members
        \<and> for_each members tar_extract (w3\<lparr>stdout := stdout w3 @ ['':: tar: '' @ archive]\<rparr>)
             = (Some e, w4)"
  then show "ingest_archive out collapse platform archive w3 = (Some e, w4)"
    by (simp add: ingest_archive_def tar_branch_def seq_def print_def reading_def)
next
  assume "\<not> py_in_str ''.tar.'' archive \<and> py_in_str ''.zip'' archive
        \<and> zipfile_open archive w3 = Inl e"
  then show "ingest_archive out collapse platform archive w3 =
          (Some e, w3\<lparr>stdout := stdout w3 @ ['':: zip: '' @ archive]\<rparr>)"
    by (simp add: ingest_archive_def zip_branch_def seq_def print_def reading_def)
next
  assume "\<not> py_in_str ''.tar.'' archive \<and> py_in_str ''.zip'' archive
        \<and> zipfile_open archive w3 = Inr members
        \<and> for_each members zip_extract (w3\<lparr>stdout := stdout w3 @ ['':: zip: '' @ archive]\<rparr>)
             = (Some e, w4)"
  then show "ingest_archive out collapse platform archive w3 = (Some e, w4)"
    by (simp add: ingest_archive_def zip_branch_def seq_def print_def reading_def)
next
  assume "net w (manifest_uri_of a) = Inl e"
  then have "download_only a w = (Some e, w\<lparr>requests := requests w @ [manifest_uri_of a]\<rparr>)"
    by (simp add: download_only_def urlopen_failure)
  from main_exit(1) [OF this]
  show "main a w = (1, w\<lparr>requests := requests w @ [manifest_uri_of a],
                          stderr := stderr w @ [Error_during_download e]\<rparr>)" by simp
next
  assume "net w (manifest_uri_of a) = Inr (status, body) \<and> \<not> (200 \<le> status \<and> status < 300)"
  then have "download_only a w =
      (Some (HTTPError status), w\<lparr>requests := requests w @ [manifest_uri_of a]\<rparr>)"
    by (simp add: download_only_def urlopen_HTTPError)
  from main_exit(1) [OF this]
  show "main a w = (1, w\<lparr>requests := requests w @ [manifest_uri_of a],
                          stderr := stderr w @ [Error_during_download (HTTPError status)]\<rparr>)"
    by simp
next
  assume "net w (manifest_uri_of a) = Inr (status, body) \<and> 200 \<le> status \<and> status < 300
        \<and> json_loads body = Inl e"
  then have "download_only a w = (Some e, w\<lparr>requests := requests w @ [manifest_uri_of a]\<rparr>)"
    by (simp add: download_only_def urlopen_response compute_Inl raise_def)
  from main_exit(1) [OF this]
  show "main a w = (1, w\<lparr>requests := requests w @ [manifest_uri_of a],
                          stderr := stderr w @ [Error_during_download e]\<rparr>)" by simp
next
  assume "download_only a w = (Some e, w1)"
  then show "main a w = (1, w1\<lparr>stderr := stderr w1 @ [Error_during_download e]\<rparr>)"
    by (rule main_exit)
next
  assume "download_only a w = (None, w1)"
  then show "main a w = (0, w1)" by (rule main_exit)
qed

theorem extraction_failure_ends_run_witness:
  "net ex_corrupt_later (manifest_uri_of ex_args) = Inr (200, JsonDoc ex_two)
   \<and> json_loads (JsonDoc ex_two) = Inr ex_two
   \<and> arg_output ex_args = Some ''out''
   \<and> tarfile_open ''s.tar.gz''
        (snd (for_each [(''lin-x'', ''f.tar.gz'')] (\<lambda>(p, x). ingest_archive ''out'' True p x)
           (snd (os_makedirs False ''out''
              (snd (print (nl @ ''Archives:'')
                 (snd (fetch_action (parent_of ex_args) ex_two (arg_component ex_args)
                    (Some (platform_of ex_args)) (arg_variant ex_args) True
                    (ex_corrupt_later\<lparr>requests := requests ex_corrupt_later
                       @ [manifest_uri_of ex_args]\<rparr>)))))))))
        = Inl ReadError
   \<and> fst (main ex_args ex_corrupt_later) = 1
   \<and> stderr (snd (main ex_args ex_corrupt_later)) = [Error_during_download ReadError]
   \<and> fst (ingest_archive ''out'' True ''p'' ''a.tar.gz'' ex_clash) = Some NotADirectoryError
   \<and> fst (ingest_archive ''out'' True ''p'' ''f.zip'' ex_junk) = Some FileNotFoundError
   \<and> fst (ingest_archive ''out'' True ''p'' ''a.zip'' ex_clash) = Some NotADirectoryError
   \<and> main ex_args ex_offline =
        (1, ex_offline\<lparr>requests := requests ex_offline @ [manifest_uri_of ex_args],
                        stderr := stderr ex_offline @ [Error_during_download URLError]\<rparr>)
   \<and> main ex_args ex_no_manifest =
        (1, ex_no_manifest\<lparr>requests := requests ex_no_manifest @ [manifest_uri_of ex_args],
              stderr := stderr ex_no_manifest @ [Error_during_download (HTTPError 404)]\<rparr>)
   \<and> main ex_args ex_not_json =
        (1, ex_not_json\<lparr>requests := requests ex_not_json @ [manifest_uri_of ex_args],
              stderr := stderr ex_not_json @ [Error_during_download ValueError]\<rparr>)
   \<and> fst (download_only ex_args ex_corrupt) = Some ReadError
   \<and> fst (main ex_args ex_corrupt) = 1
   \<and> fst (download_only ex_args ex_good) = None
   \<and> fst (main ex_args ex_good) = 0"
proof -
  let ?u = "manifest_uri_of ex_args"
  let ?F = "fetch_action (parent_of ex_args) ex_two (arg_component ex_args)
      (Some (platform_of ex_args)) (arg_variant ex_args) True
      (ex_corrupt_later\<lparr>requests := requests ex_corrupt_later @ [?u]\<rparr>)"
  define W1 where "W1 = snd ?F"
  define W1' where "W1' = W1\<lparr>stdout := stdout W1 @ [nl @ ''Archives:'']\<rparr>"
  define W2 where "W2 = snd (os_makedirs False ''out'' W1')"
  define W3 where "W3 = snd (for_each [(''lin-x'', ''f.tar.gz'')]
      (\<lambda>(p, x). ingest_archive ''out'' True p x) W2)"
  define W4 where "W4 = W3\<lparr>stdout := stdout W3 @ ['':: tar: '' @ ''s.tar.gz'']\<rparr>"
  note Ws = W3_def W2_def W1'_def W1_def
  have net: "net ex_corrupt_later ?u = Inr (200, JsonDoc ex_two)" by code_simp
  have js: "json_loads (JsonDoc ex_two) = Inr ex_two" by (simp add: json_loads_def)
  have out: "arg_output ex_args = Some ''out''" by (simp add: ex_args_def)
  have "fst ?F = None" by code_simp
  then have walk: "?F = (None, W1)" unfolding W1_def by (metis prod.collapse)
  have ex: "\<not> os_path_exists W1 ''out''" unfolding Ws by code_simp
  have "fst (os_makedirs False ''out'' W1') = None" unfolding Ws by code_simp
  then have m: "os_makedirs False ''out'' W1' = (None, W2)"
    unfolding W2_def by (metis prod.collapse)
  have prep: "(if os_path_exists W1 ''out''
               then (None, W1\<lparr>stdout := stdout W1 @ [nl @ ''Archives:'']\<rparr>)
               else os_makedirs False ''out'' (W1\<lparr>stdout := stdout W1 @ [nl @ ''Archives:'']\<rparr>))
      = (None, W2)"
    using ex m unfolding W1'_def by (simp only: if_False)
  have order: "ingestion_order W1 = [(''lin-x'', ''f.tar.gz'')] @ (''source'', ''s.tar.gz'') # []"
    unfolding Ws by code_simp
  have "fst (for_each [(''lin-x'', ''f.tar.gz'')] (\<lambda>(p, x). ingest_archive ''out'' True p x) W2)
      = None" unfolding Ws by code_simp
  then have ok: "for_each [(''lin-x'', ''f.tar.gz'')] (\<lambda>(p, x). ingest_archive ''out'' True p x) W2
      = (None, W3)" unfolding W3_def by (metis prod.collapse)
  have t1: "py_in_str ''.tar.'' ''s.tar.gz''" by code_simp
  have t2: "tarfile_open ''s.tar.gz'' W3 = Inl ReadError" unfolding Ws by code_simp
  have e0: "stderr W3 = []" unfolding Ws by code_simp
  note th = extraction_failure_ends_run [where a = ex_args and w = ex_corrupt_later
      and status = 200 and body = "JsonDoc ex_two" and manifest = ex_two and ?w1.0 = W1
      and out = "''out''" and ?w2.0 = W2 and before = "[(''lin-x'', ''f.tar.gz'')]"
      and platform = "''source''" and archive = "''s.tar.gz''" and rest = "[]"
      and ?w3.0 = W3 and e = ReadError and ?w4.0 = W4 and collapse = True]
  from th t1 t2 have fail: "ingest_archive ''out'' True ''source'' ''s.tar.gz'' W3
      = (Some ReadError, W4)" unfolding W4_def by blast
  have s200: "200 \<le> (200::nat) \<and> (200::nat) < 300" by simp
  from th net s200 js walk out prep order ok fail
  have run: "main ex_args ex_corrupt_later =
      (1, W4\<lparr>stderr := stderr W4 @ [Error_during_download ReadError]\<rparr>)"
    by blast
  have r1: "fst (main ex_args ex_corrupt_later) = 1" unfolding run by simp
  have r2: "stderr (snd (main ex_args ex_corrupt_later)) = [Error_during_download ReadError]"
    unfolding run using e0 by (simp add: W4_def)
  have t2': "tarfile_open ''s.tar.gz''
        (snd (for_each [(''lin-x'', ''f.tar.gz'')] (\<lambda>(p, x). ingest_archive ''out'' True p x)
           (snd (os_makedirs False ''out''
              (snd (print (nl @ ''Archives:'')
                 (snd (fetch_action (parent_of ex_args) ex_two (arg_component ex_args)
                    (Some (platform_of ex_args)) (arg_variant ex_args) True
                    (ex_corrupt_later\<lparr>requests := requests ex_corrupt_later
                       @ [manifest_uri_of ex_args]\<rparr>)))))))))
        = Inl ReadError"
    using t2 unfolding Ws print_def snd_conv .
  define C where "C = ex_clash\<lparr>stdout := stdout ex_clash @ ['':: tar: '' @ ''a.tar.gz'']\<rparr>"
  define C' where "C' = snd (for_each [(''a.tar.gz/x'', MFile 420 ''1'')] tar_extract C)"
  have c1: "py_in_str ''.tar.'' ''a.tar.gz''" by code_simp
  have c2: "tarfile_open ''a.tar.gz'' ex_clash = Inr [(''a.tar.gz/x'', MFile 420 ''1'')]"
    by code_simp
  have "fst (for_each [(''a.tar.gz/x'', MFile 420 ''1'')] tar_extract C)
      = Some NotADirectoryError" unfolding C_def by code_simp
  then have c3: "for_each [(''a.tar.gz/x'', MFile 420 ''1'')] tar_extract
      (ex_clash\<lparr>stdout := stdout ex_clash @ ['':: tar: '' @ ''a.tar.gz'']\<rparr>)
      = (Some NotADirectoryError, C')"
    unfolding C'_def C_def by (metis prod.collapse)
  note th3 = extraction_failure_ends_run [where archive = "''a.tar.gz''" and ?w3.0 = ex_clash
      and members = "[(''a.tar.gz/x'', MFile 420 ''1'')]" and e = NotADirectoryError
      and ?w4.0 = C' and out = "''out''" and collapse = True and platform = "''p''"]
  from th3 c1 c2 c3
  have "ingest_archive ''out'' True ''p'' ''a.tar.gz'' ex_clash = (Some NotADirectoryError, C')"
    by blast
  then have r3: "fst (ingest_archive ''out'' True ''p'' ''a.tar.gz'' ex_clash)
      = Some NotADirectoryError" by simp
  have z1: "\<not> py_in_str ''.tar.'' ''f.zip''" by code_simp
  have z2: "py_in_str ''.zip'' ''f.zip''" by code_simp
  have z3: "zipfile_open ''f.zip'' ex_junk = Inl FileNotFoundError" by code_simp
  note th4 = extraction_failure_ends_run [where archive = "''f.zip''" and ?w3.0 = ex_junk
      and e = FileNotFoundError and out = "''out''" and collapse = True and platform = "''p''"]
  from th4 z1 z2 z3
  have "ingest_archive ''out'' True ''p'' ''f.zip'' ex_junk =
      (Some FileNotFoundError, ex_junk\<lparr>stdout := stdout ex_junk @ ['':: zip: '' @ ''f.zip'']\<rparr>)"
    by blast
  then have r4: "fst (ingest_archive ''out'' True ''p'' ''f.zip'' ex_junk) = Some FileNotFoundError"
    by simp
  define Z where "Z = ex_clash\<lparr>stdout := stdout ex_clash @ ['':: zip: '' @ ''a.zip'']\<rparr>"
  define Z' where "Z' = snd (for_each [(''a.zip/x'', MFile 420 ''1'')] zip_extract Z)"
  have y1: "\<not> py_in_str ''.tar.'' ''a.zip''" by code_simp
  have y2: "py_in_str ''.zip'' ''a.zip''" by code_simp
  have y3: "zipfile_open ''a.zip'' ex_clash = Inr [(''a.zip/x'', MFile 420 ''1'')]" by code_simp
  have "fst (for_each [(''a.zip/x'', MFile 420 ''1'')] zip_extract Z)
      = Some NotADirectoryError" unfolding Z_def by code_simp
  then have y4: "for_each [(''a.zip/x'', MFile 420 ''1'')] zip_extract
      (ex_clash\<lparr>stdout := stdout ex_clash @ ['':: zip: '' @ ''a.zip'']\<rparr>)
      = (Some NotADirectoryError, Z')"
    unfolding Z'_def Z_def by (metis prod.collapse)
  note th5 = extraction_failure_ends_run [where archive = "''a.zip''" and ?w3.0 = ex_clash
      and members = "[(''a.zip/x'', MFile 420 ''1'')]" and e = NotADirectoryError
      and ?w4.0 = Z' and out = "''out''" and collapse = True and platform = "''p''"]
  from th5 y1 y2 y3 y4
  have "ingest_archive ''out'' True ''p'' ''a.zip'' ex_clash = (Some NotADirectoryError, Z')"
    by blast
  then have r5: "fst (ingest_archive ''out'' True ''p'' ''a.zip'' ex_clash)
      = Some NotADirectoryError" by simp
  have n1: "net ex_offline ?u = Inl URLError" by (simp add: ex_offline_def)
  note th6 = extraction_failure_ends_run [where a = ex_args and w = ex_offline and e = URLError]
  from th6 n1 have r6: "main ex_args ex_offline =
        (1, ex_offline\<lparr>requests := requests ex_offline @ [?u],
                        stderr := stderr ex_offline @ [Error_during_download URLError]\<rparr>)"
    by blast
  have n2: "net ex_no_manifest ?u = Inr (404, Bytes [])" by (simp add: ex_no_manifest_def)
  have s404: "\<not> (200 \<le> (404::nat) \<and> (404::nat) < 300)" by simp
  note th7 = extraction_failure_ends_run [where a = ex_args and w = ex_no_manifest
      and status = 404 and body = "Bytes []"]
  from th7 n2 s404 have r7: "main ex_args ex_no_manifest =
        (1, ex_no_manifest\<lparr>requests := requests ex_no_manifest @ [?u],
              stderr := stderr ex_no_manifest @ [Error_during_download (HTTPError 404)]\<rparr>)"
    by blast
  have n3: "net ex_not_json ?u = Inr (200, Bytes ''junk'')" by (simp add: ex_not_json_def)
  have j3: "json_loads (Bytes ''junk'') = Inl ValueError" by (simp add: json_loads_def)
  note th8 = extraction_failure_ends_run [where a = ex_args and w = ex_not_json
      and status = 200 and body = "Bytes ''junk''" and e = ValueError]
  from th8 n3 s200 j3 have r8: "main ex_args ex_not_json =
        (1, ex_not_json\<lparr>requests := requests ex_not_json @ [?u],
              stderr := stderr ex_not_json @ [Error_during_download ValueError]\<rparr>)"
    by blast
  have d: "fst (download_only ex_args ex_good) = None" by code_simp
  then have d': "download_only ex_args ex_good = (None, snd (download_only ex_args ex_good))"
    by (metis prod.collapse)
  note th9 = extraction_failure_ends_run [where a = ex_args and w = ex_good
      and ?w1.0 = "snd (download_only ex_args ex_good)"]
  from th9 d' have "main ex_args ex_good = (0, snd (download_only ex_args ex_good))" by blast
  then have r9: "fst (main ex_args ex_good) = 0" by (simp only: fst_conv)
  have x: "fst (download_only ex_args ex_corrupt) = Some ReadError" by code_simp
  then have x': "download_only ex_args ex_corrupt =
      (Some ReadError, snd (download_only ex_args ex_corrupt))"
    by (metis prod.collapse)
  note th10 = extraction_failure_ends_run [where a = ex_args and w = ex_corrupt
      and e = ReadError and ?w1.0 = "snd (download_only ex_args ex_corrupt)"]
  from th10 x' have "main ex_args ex_corrupt =
      (1, (snd (download_only ex_args ex_corrupt))\<lparr>stderr :=
            stderr (snd (download_only ex_args ex_corrupt))
              @ [Error_during_download ReadError]\<rparr>)" by blast
  then have r10: "fst (main ex_args ex_corrupt) = 1" by (simp only: fst_conv)
  show ?thesis using net js out t2' r1 r2 r3 r4 r5 r6 r7 r8 x r10 d r9 by blast
qed

theorem platform_filter_source_passthrough_witness:
  "\<not> py_in_str ''variant'' ''lin''
   \<and> ebind (py_getitem ex_platforms ''c'') (\<lambda>c. py_getitem c ''lin'')
        = Inr (JObj [(''relative_path'', JStr ''a.tar.gz'')])
   \<and> \<not> is_str (JObj [(''relative_path'', JStr ''a.tar.gz'')])
   \<and> platform_step ''http://h/'' ex_platforms ''c'' (Some ''lin'') None True ''lin'' =
        seq (archives_init ''lin'')
          (resolve_platform ''http://h/'' ex_platforms ''c'' ''lin'' None True
             (JObj [(''relative_path'', JStr ''a.tar.gz'')]))
   \<and> \<not> py_in_str ''variant'' ''source''
   \<and> ebind (py_getitem ex_platforms ''c'') (\<lambda>c. py_getitem c ''source'')
        = Inr (JObj [(''relative_path'', JStr ''s.tar.gz'')])
   \<and> platform_step ''http://h/'' ex_platforms ''c'' (Some ''lin'') None True ''source'' =
        seq (archives_init ''source'')
          (resolve_platform ''http://h/'' ex_platforms ''c'' ''source'' None True
             (JObj [(''relative_path'', JStr ''s.tar.gz'')]))
   \<and> \<not> py_in_str ''variant'' ''win''
   \<and> ebind (py_getitem ex_platforms ''c'') (\<lambda>c. py_getitem c ''win'')
        = Inr (JObj [(''relative_path'', JStr ''b.zip'')])
   \<and> stdout (snd (platform_step ''http://h/'' ex_platforms ''c'' (Some ''lin'') None True
        ''win'' ex_online)) = stdout ex_online @ [''  -> Skipping platform: '' @ ''win'']
   \<and> archives_of (snd (platform_step ''http://h/'' ex_platforms ''c'' (Some ''lin'') None True
        ''win'' ex_online)) ''win'' = archives_of ex_online ''win''
   \<and> ARCHIVES (snd (fetch_action ''http://h/'' ex_platforms None (Some ''lin'') None True
        ex_online)) =
        [(''name'', []), (''version'', []), (''lin'', [''a.tar.gz'']),
         (''source'', [''s.tar.gz'']), (''win'', [])]
   \<and> ''  -> Skipping platform: win'' \<in> set (stdout (snd (fetch_action ''http://h/''
        ex_platforms None (Some ''lin'') None True ex_online)))"
proof -
  have l1: "\<not> py_in_str ''variant'' ''lin''" by code_simp
  have l2: "ebind (py_getitem ex_platforms ''c'') (\<lambda>c. py_getitem c ''lin'')
        = Inr (JObj [(''relative_path'', JStr ''a.tar.gz'')])" by code_simp
  have l3: "\<not> is_str (JObj [(''relative_path'', JStr x)])" for x by (simp add: is_str_def)
  have s1: "\<not> py_in_str ''variant'' ''source''" by code_simp
  have s2: "ebind (py_getitem ex_platforms ''c'') (\<lambda>c. py_getitem c ''source'')
        = Inr (JObj [(''relative_path'', JStr ''s.tar.gz'')])" by code_simp
  have w1: "\<not> py_in_str ''variant'' ''win''" by code_simp
  have w2: "ebind (py_getitem ex_platforms ''c'') (\<lambda>c. py_getitem c ''win'')
        = Inr (JObj [(''relative_path'', JStr ''b.zip'')])" by code_simp
  have ne: "''win'' \<noteq> ''lin'' \<and> ''win'' \<noteq> ''source''" by simp
  have e1: "ARCHIVES (snd (fetch_action ''http://h/'' ex_platforms None (Some ''lin'') None True
        ex_online)) =
        [(''name'', []), (''version'', []), (''lin'', [''a.tar.gz'']),
         (''source'', [''s.tar.gz'']), (''win'', [])]" by code_simp
  have e2: "''  -> Skipping platform: win'' \<in> set (stdout (snd (fetch_action ''http://h/''
        ex_platforms None (Some ''lin'') None True ex_online)))" by code_simp
  note a = platform_filter_source_passthrough [OF l1 l2 l3, where P = "''lin''"
      and parent = "''http://h/''" and cuda_filter = None and retrieve = True]
  note b = platform_filter_source_passthrough [OF s1 s2 l3, where P = "''lin''"
      and parent = "''http://h/''" and cuda_filter = None and retrieve = True]
  note c = platform_filter_source_passthrough [OF w1 w2 l3, where P = "''lin''"
      and parent = "''http://h/''" and cuda_filter = None and retrieve = True
      and w = ex_online and k = "''win''"]
  from a have a': "platform_step ''http://h/'' ex_platforms ''c'' (Some ''lin'') None True ''lin'' =
        seq (archives_init ''lin'')
          (resolve_platform ''http://h/'' ex_platforms ''c'' ''lin'' None True
             (JObj [(''relative_path'', JStr ''a.tar.gz'')]))" by blast
  from b have b': "platform_step ''http://h/'' ex_platforms ''c'' (Some ''lin'') None True
        ''source'' =
        seq (archives_init ''source'')
          (resolve_platform ''http://h/'' ex_platforms ''c'' ''source'' None True
             (JObj [(''relative_path'', JStr ''s.tar.gz'')]))" by blast
  from c ne have c': "stdout (snd (platform_step ''http://h/'' ex_platforms ''c'' (Some ''lin'')
        None True ''win'' ex_online)) = stdout ex_online @ [''  -> Skipping platform: '' @ ''win'']"
    "archives_of (snd (platform_step ''http://h/'' ex_platforms ''c'' (Some ''lin'') None True
        ''win'' ex_online)) ''win'' = archives_of ex_online ''win''" by blast+
  show ?thesis using l1 l2 l3 s1 s2 w1 w2 a' b' c' e1 e2 by blast
qed



theorem archives_keys_before_filter_witness:
  "\<not> py_in_str ''variant'' ''p''
   \<and> ''p'' \<in> keys_of (snd (platform_step ''http://h/'' ex_manifest ''c'' (Some ''q'') None True
        ''p'' ex_online))
   \<and> ebind (py_getitem ex_manifest ''c'') (\<lambda>c. py_getitem c ''p'')
        = Inr (JObj [(''relative_path'', JStr ''d/f.tar.gz'')])
   \<and> ''p'' \<notin> keys_of ex_online
   \<and> map_of (ARCHIVES (snd (platform_step ''http://h/'' ex_manifest ''c'' (Some ''q'') None True
        ''p'' ex_online))) ''p'' = Some []
   \<and> fst (fetch_action ''http://h/'' ex_manifest None (Some ''q'') None True ex_online) = None
   \<and> ''p'' \<in> keys_of (snd (fetch_action ''http://h/'' ex_manifest None (Some ''q'') None True
        ex_online))
   \<and> ARCHIVES (snd (fetch_action ''http://h/'' ex_manifest None (Some ''q'') None True ex_online))
        = ARCHIVES ex_keys_only
   \<and> ARCHIVES ex_keys_only \<noteq> [] \<and> list_all (\<lambda>pa. snd pa = []) (ARCHIVES ex_keys_only)
   \<and> \<not> os_path_exists ex_keys_only ''out''
   \<and> post_action (Some ''out'') True ex_keys_only =
        seq (print (nl @ ''Archives:''))
          (seq (os_makedirs False ''out'')
            (seq (print (nl @ ''Output: '' @ ''out'' @ ''/''))
               (reading (os_listdir ''out'')
                  (\<lambda>items. for_each (sort items) (list_item ''out''))))) ex_keys_only
   \<and> os_path_isdir (snd (post_action (Some ''out'') True ex_keys_only)) ''out''"
proof -
  let ?F = "fetch_action ''http://h/'' ex_manifest None (Some ''q'') None True ex_online"
  let ?ps = "[(''name'', JStr ''n''), (''version'', JStr ''1''),
              (''p'', JObj [(''relative_path'', JStr ''d/f.tar.gz'')])]"
  have v: "\<not> py_in_str ''variant'' ''p''" by code_simp
  have en: "ebind (py_getitem ex_manifest ''c'') (\<lambda>c. py_getitem c ''p'')
        = Inr (JObj [(''relative_path'', JStr ''d/f.tar.gz'')])" by code_simp
  have ns: "\<not> is_str (JObj [(''relative_path'', JStr ''d/f.tar.gz'')])" by (simp add: is_str_def)
  have ne: "''p'' \<noteq> ''q'' \<and> ''p'' \<noteq> ''source''" by simp
  have nk: "''p'' \<notin> keys_of ex_online" by (simp add: keys_of_def ex_online_def)
  have f: "fst ?F = None" by code_simp
  then have f': "?F = (None, snd ?F)" by (metis prod.collapse)
  have m: "ex_manifest = JObj [(''c'', JObj ?ps)]" by (simp add: ex_manifest_def)
  have c: "''c'' \<in> set (map fst [(''c'', JObj ?ps)])" by simp
  have g: "py_getitem ex_manifest ''c'' = Inr (JObj ?ps)" by code_simp
  have n: "''name'' \<in> set (map fst ?ps)" by simp
  have p: "''p'' \<in> set (map fst ?ps)" by simp
  have ar: "ARCHIVES (snd ?F) = ARCHIVES ex_keys_only" by code_simp
  have k1: "ARCHIVES ex_keys_only \<noteq> []" by (simp add: ex_keys_only_def)
  have k2: "list_all (\<lambda>pa. snd pa = []) (ARCHIVES ex_keys_only)" by (simp add: ex_keys_only_def)
  have k3: "\<not> os_path_exists ex_keys_only ''out''" by code_simp
  have d: "os_path_isdir (snd (post_action (Some ''out'') True ex_keys_only)) ''out''"
    by code_simp
  note th = archives_keys_before_filter [where platform = "''p''" and parent = "''http://h/''"
      and manifest = ex_manifest and component = "''c''" and platform_filter = "Some ''q''"
      and cuda_filter = None and retrieve = True and w = ex_online
      and entry = "JObj [(''relative_path'', JStr ''d/f.tar.gz'')]" and P = "''q''"]
  note th2 = archives_keys_before_filter [where platform = "''p''" and parent = "''http://h/''"
      and manifest = ex_manifest and component = "''c''" and platform_filter = "Some ''q''"
      and cuda_filter = None and retrieve = True and w = ex_online and w' = "snd ?F"
      and component_filter = None and cs = "[(''c'', JObj ?ps)]" and ps = ?ps]
  note th3 = archives_keys_before_filter [where w = ex_keys_only and out = "''out''"
      and collapse = True]
  from th v have a1: "''p'' \<in> keys_of (snd (platform_step ''http://h/'' ex_manifest ''c''
      (Some ''q'') None True ''p'' ex_online))" by blast
  from th v en ns ne nk have a2: "map_of (ARCHIVES (snd (platform_step ''http://h/'' ex_manifest
      ''c'' (Some ''q'') None True ''p'' ex_online))) ''p'' = Some []" by blast
  from th2 f' m c g n p v have a3: "''p'' \<in> keys_of (snd ?F)" by blast
  from th3 k1 k2 k3 have a4: "post_action (Some ''out'') True ex_keys_only =
        seq (print (nl @ ''Archives:''))
          (seq (os_makedirs False ''out'')
            (seq (print (nl @ ''Output: '' @ ''out'' @ ''/''))
               (reading (os_listdir ''out'')
                  (\<lambda>items. for_each (sort items) (list_item ''out''))))) ex_keys_only"
    by blast
  show ?thesis using v a1 en nk a2 f a3 ar k1 k2 k3 a4 d by blast
qed

subsection \<open>Owner-write permission (C9)\<close>

text \<open>Setting the bit \<^verbatim>\<open>S_IWRITE\<close> in the permission bits of a mode.\<close>

lemma bit_S_IFREG_low: "n < 12 \<Longrightarrow> \<not> bit (32768::32 word) n"
proof -
  assume "n < 12"
  then have "n \<in> {0, 1, 2, 3, 4, 5, 6, 7, 8, 9, 10, 11}" by simp arith
  then show ?thesis by auto
qed

lemma bit_128_word: "n < 12 \<Longrightarrow> bit (128::32 word) n = bit (128::12 word) n"
proof -
  assume "n < 12"
  then have "n \<in> {0, 1, 2, 3, 4, 5, 6, 7, 8, 9, 10, 11}" by simp arith
  then show ?thesis by auto
qed

lemma chmod_word: "(ucast ((32768 OR ucast m) OR (128::32 word)) :: 12 word) = m OR 128"
proof (rule bit_word_eqI)
  fix n
  assume "n < LENGTH(12)"
  then have n: "n < 12" by simp
  have "bit (ucast ((32768 OR ucast m) OR (128::32 word)) :: 12 word) n
      = bit ((32768 OR ucast m) OR (128::32 word)) n"
    using n by (simp add: bit_ucast_iff)
  also have "\<dots> = (bit (32768::32 word) n \<or> bit (ucast m :: 32 word) n \<or> bit (128::32 word) n)"
    by (simp only: bit_or_iff disj_assoc)
  also have "\<dots> = (bit m n \<or> bit (128::12 word) n)"
    using n bit_S_IFREG_low [OF n] bit_128_word [OF n] by (simp add: bit_ucast_iff)
  also have "\<dots> = bit (m OR 128) n"
    by (simp only: bit_or_iff)
  finally show "bit (ucast ((32768 OR ucast m) OR (128::32 word)) :: 12 word) n
      = bit (m OR 128) n" .
qed


lemma or_or_128: "(m OR 128) OR (128 :: 12 word) = m OR 128"
  by (simp add: or.assoc)

lemma and_or_128: "m AND (m OR 128) = (m :: 12 word)"
  by (simp add: bit_eq_iff bit_simps)

lemma bit7_or_128: "bit (m OR (128 :: 12 word)) 7"
  by (simp add: bit_simps)

lemma resolve_path_modes [simp]: "resolve_path (v\<lparr>modes := m\<rparr>) md p = resolve_path v md p"
  by (simp add: resolve_path_def)

lemma add_write_result:
  "reading (os_stat p) (\<lambda>mode. os_chmod p (mode OR S_IWRITE)) v =
     (case resolve_path v Follow p of
        Inl e \<Rightarrow> (Some e, v)
      | Inr q \<Rightarrow>
          (case lookup_node (root v) q of
             None \<Rightarrow> (Some FileNotFoundError, v)
           | Some (File c) \<Rightarrow> (None, v\<lparr>modes := (modes v)(q := modes v q OR 128)\<rparr>)
           | Some (Link t) \<Rightarrow> (None, v)
           | Some (Dir es) \<Rightarrow> (None, v)))"
  by (auto simp: reading_def os_stat_def os_chmod_def ebind_def st_mode_def S_IWRITE_def
      chmod_word split: sum.splits option.splits node.splits)

lemma for_each_nested:
  "for_each tr (\<lambda>(rt, dirs, files). for_each files (\<lambda>file. S (join rt file))) w =
     for_each (concat (map (\<lambda>(rt, dirs, files). map (join rt) files) tr)) S w"
  by (induction tr arbitrary: w)
    (auto simp: for_each_append for_each_map split: prod.splits option.splits)

lemma fix_permissions_flat:
  "fix_permissions directory w =
     for_each (walked_files directory w)
       (\<lambda>p. reading (os_stat p) (\<lambda>mode. os_chmod p (mode OR S_IWRITE))) w"
  unfolding fix_permissions_def walked_files_def Let_def
  by (rule for_each_nested)


lemma target_of_modes [simp]: "target_of (v\<lparr>modes := m\<rparr>) p = target_of v p"
  by (simp add: target_of_def split: sum.splits)

lemma add_write_cases:
  assumes "reading (os_stat p) (\<lambda>mode. os_chmod p (mode OR S_IWRITE)) v = (None, v1)"
  obtains q n where "resolve_path v Follow p = Inr q" "lookup_node (root v) q = Some n"
    "v1 = (case target_of v p of
             None \<Rightarrow> v
           | Some q' \<Rightarrow> v\<lparr>modes := (modes v)(q' := modes v q' OR 128)\<rparr>)"
  using assms unfolding add_write_result target_of_def
  by (auto split: sum.splits option.splits node.splits)

lemma loop_exact:
  assumes "for_each ps (\<lambda>p. reading (os_stat p) (\<lambda>mode. os_chmod p (mode OR S_IWRITE))) v
     = (None, v')"
  shows "v' = v\<lparr>modes := (\<lambda>q. if Some q \<in> set (map (target_of v) ps) then modes v q OR 128
                              else modes v q)\<rparr>
       \<and> (\<forall>p \<in> set ps. \<exists>q n. resolve_path v Follow p = Inr q
                                \<and> lookup_node (root v) q = Some n)"
  using assms
proof (induction ps arbitrary: v)
  case Nil
  then show ?case by simp
next
  case (Cons p ps)
  let ?S = "\<lambda>p. reading (os_stat p) (\<lambda>mode. os_chmod p (mode OR S_IWRITE))"
  obtain r v1 where st: "?S p v = (r, v1)" by (cases "?S p v")
  with Cons.prems have r: "r = None" and rest: "for_each ps ?S v1 = (None, v')"
    by (cases r; simp)+
  from st r obtain q n where q: "resolve_path v Follow p = Inr q"
      "lookup_node (root v) q = Some n"
    and v1: "v1 = (case target_of v p of
             None \<Rightarrow> v
           | Some q' \<Rightarrow> v\<lparr>modes := (modes v)(q' := modes v q' OR 128)\<rparr>)"
    by (auto elim: add_write_cases)
  have same: "target_of v1 = target_of v" "resolve_path v1 = resolve_path v" "root v1 = root v"
    using v1 by (auto simp: fun_eq_iff split: option.splits)
  from Cons.IH [OF rest]
  have ih: "v' = v1\<lparr>modes := (\<lambda>q. if Some q \<in> set (map (target_of v1) ps)
                                    then modes v1 q OR 128 else modes v1 q)\<rparr>"
    and ok: "\<forall>p \<in> set ps. \<exists>q n. resolve_path v1 Follow p = Inr q
                                \<and> lookup_node (root v1) q = Some n"
    by blast+
  have m: "(\<lambda>q. if Some q \<in> set (map (target_of v1) ps) then modes v1 q OR 128 else modes v1 q)
      = (\<lambda>q. if Some q \<in> set (map (target_of v) (p # ps)) then modes v q OR 128
             else modes v q)"
    unfolding same using v1
    by (cases "target_of v p") (auto simp: fun_eq_iff or_or_128)
  have "v' = v\<lparr>modes := (\<lambda>q. if Some q \<in> set (map (target_of v) (p # ps))
                               then modes v q OR 128 else modes v q)\<rparr>"
    unfolding ih m using v1 by (cases "target_of v p") auto
  with q ok same show ?case by auto
qed

lemma loop_noop:
  assumes "\<forall>p \<in> set ps. \<exists>q n. resolve_path v Follow p = Inr q
                                \<and> lookup_node (root v) q = Some n"
    and "\<forall>p \<in> set ps. \<forall>q. target_of v p = Some q \<longrightarrow> modes v q OR 128 = modes v q"
  shows "for_each ps (\<lambda>p. reading (os_stat p) (\<lambda>mode. os_chmod p (mode OR S_IWRITE))) v
     = (None, v)"
  using assms
proof (induction ps)
  case Nil
  then show ?case by simp
next
  case (Cons p ps)
  from Cons.prems(1) obtain q n where q: "resolve_path v Follow p = Inr q"
      "lookup_node (root v) q = Some n" by auto
  have "reading (os_stat p) (\<lambda>mode. os_chmod p (mode OR S_IWRITE)) v = (None, v)"
  proof (cases n)
    case (File c)
    with q have "target_of v p = Some q" by (simp add: target_of_def)
    with Cons.prems(2) have "modes v q OR 128 = modes v q" by simp
    with q File show ?thesis by (simp add: add_write_result)
  qed (use q in \<open>simp_all add: add_write_result\<close>)
  moreover have "for_each ps (\<lambda>p. reading (os_stat p) (\<lambda>mode. os_chmod p (mode OR S_IWRITE))) v
     = (None, v)"
    using Cons by simp
  ultimately show ?case by simp
qed


lemma entry_is_dir_modes [simp]:
  "entry_is_dir (v\<lparr>modes := m\<rparr>) topd = entry_is_dir v topd"
  by (auto simp: fun_eq_iff entry_is_dir_def os_path_isdir_def node_at_def split: node.splits)

lemma walk_node_modes [simp]: "walk_node (v\<lparr>modes := m\<rparr>) topd n = walk_node v topd n"
proof (induction v topd n rule: walk_node.induct)
  case (1 w topd es)
  have eq: "map (\<lambda>(name, n). case n of Dir _ \<Rightarrow> walk_node (w\<lparr>modes := m\<rparr>) (join topd name) n
                                 | _ \<Rightarrow> []) es
      = map (\<lambda>(name, n). case n of Dir _ \<Rightarrow> walk_node w (join topd name) n | _ \<Rightarrow> []) es"
    using 1 by (auto split: node.splits)
  show ?case unfolding walk_node.simps eq by simp
qed (simp_all add: walk_node.simps)

lemma os_walk_modes [simp]: "os_walk directory (v\<lparr>modes := m\<rparr>) = os_walk directory v"
  by (auto simp: os_walk_def node_at_def split: sum.splits node.splits)

lemma walked_files_modes [simp]:
  "walked_files directory (v\<lparr>modes := m\<rparr>) = walked_files directory v"
  by (simp add: walked_files_def)

lemma py_split_append_sep: "py_split c (a @ c # b) = py_split c a @ py_split c b"
proof (induction a)
  case Nil
  then show ?case by simp
next
  case (Cons x a)
  obtain y ys where "py_split c a = y # ys"
    using py_split_nonempty [of c a] by (cases "py_split c a") auto
  with Cons show ?case by auto
qed

lemma py_split_no_sep: "c \<notin> set x \<Longrightarrow> py_split c x = [x]"
  by (induction x) auto

lemma lookup_node_append:
  "lookup_node rt p = Some n \<Longrightarrow> lookup_node rt (p @ r) = lookup_node n r"
proof (induction p arbitrary: rt)
  case Nil
  then show ?case by simp
next
  case (Cons c cs)
  then show ?case by (cases rt) (auto split: option.splits)
qed

lemma lookup_node_prefix:
  "lookup_node rt (p @ r) = Some n \<Longrightarrow> \<exists>k. lookup_node rt p = Some k"
proof (induction p arbitrary: rt)
  case Nil
  then show ?case by simp
next
  case (Cons c cs)
  then show ?case by (cases rt) (auto split: option.splits)
qed

lemma valid_names_lookup:
  "valid_names rt \<Longrightarrow> lookup_node rt p = Some n \<Longrightarrow> valid_names n"
proof (induction p arbitrary: rt)
  case Nil
  then show ?case by simp
next
  case (Cons c cs)
  show ?case
  proof (cases rt)
    case (Dir es)
    with Cons.prems obtain k where k: "map_of es c = Some k" "lookup_node k cs = Some n"
      by (auto split: option.splits)
    then have "(c, k) \<in> set es" by (auto dest: map_of_SomeD)
    with Cons.prems(1) Dir have "valid_names k" by (auto simp: list_all_iff)
    with Cons.IH k show ?thesis by blast
  qed (use Cons.prems in simp_all)
qed

lemma resolve_one:
  assumes "lookup_node rt q = Some (Dir es)" "map_of es x = Some n" "\<And>t. n \<noteq> Link t"
    "valid_name x"
  shows "resolve rt Follow f q [x] = Inr (q @ [x])"
  using assms by (cases n) (auto simp: valid_name_def)

lemma resolve_empty:
  assumes "lookup_node rt q = Some (Dir es)"
  shows "resolve rt Follow f q [[]] = Inr q"
  using assms by simp


lemma resolve_append:
  assumes "resolve rt Follow fuel cur cs = Inr q" "\<forall>f. resolve rt Follow f q ds = r"
  shows "resolve rt Follow fuel cur (cs @ ds) = r"
  using assms(1)
proof (induction fuel arbitrary: cur cs)
  case 0
  then show ?case
  proof (induction cs arbitrary: cur)
    case Nil
    with assms(2) show ?case by simp
  next
    case (Cons c cs)
    from Cons.prems Cons.IH show ?case
      by (auto split: option.splits node.splits if_splits)
  qed
next
  case (Suc f)
  from Suc.prems show ?case
  proof (induction cs arbitrary: cur)
    case Nil
    with assms(2) show ?case by simp
  next
    case (Cons c cs)
    have ih: "resolve rt Follow f k (a @ cs) = Inr q \<Longrightarrow>
        resolve rt Follow f k (a @ cs @ ds) = r" for k a
      using Suc.IH [of k "a @ cs"] by simp
    from Cons.prems Cons.IH ih show ?case
      by (auto split: option.splits node.splits if_splits)
  qed
qed

lemma resolve_append_empty:
  assumes "resolve rt Follow fuel cur (cs @ [[]]) = Inr q" "\<forall>f. resolve rt Follow f q ds = r"
  shows "resolve rt Follow fuel cur (cs @ ds) = r"
  using assms(1)
proof (induction fuel arbitrary: cur cs)
  case 0
  then show ?case
  proof (induction cs arbitrary: cur)
    case Nil
    with assms(2) show ?case by (auto split: option.splits node.splits)
  next
    case (Cons c cs)
    from Cons.prems Cons.IH show ?case
      by (auto split: option.splits node.splits if_splits)
  qed
next
  case (Suc f)
  from Suc.prems show ?case
  proof (induction cs arbitrary: cur)
    case Nil
    with assms(2) show ?case by (auto split: option.splits node.splits)
  next
    case (Cons c cs)
    have ih: "resolve rt Follow f k (a @ cs @ [[]]) = Inr q \<Longrightarrow>
        resolve rt Follow f k (a @ cs @ ds) = r" for k a
      using Suc.IH [of k "a @ cs"] by simp
    from Cons.prems Cons.IH ih show ?case
      by (auto split: option.splits node.splits if_splits)
  qed
qed

lemma resolve_path_join:
  assumes res: "resolve_path w Follow topd = Inr dcur"
    and dir: "lookup_node (root w) dcur = Some (Dir es)"
    and ent: "map_of es x = Some n" "\<And>t. n \<noteq> Link t"
    and val: "valid_name x"
  shows "resolve_path w Follow (join topd x) = Inr (dcur @ [x])"
proof -
  from res have ne: "topd \<noteq> []" by (auto simp: resolve_path_def)
  let ?st = "if absolute topd then [] else cwd w"
  from res ne have r: "resolve (root w) Follow 40 ?st (py_split CHR ''/'' topd) = Inr dcur"
    by (simp add: resolve_path_def)
  have one: "\<forall>f. resolve (root w) Follow f dcur [x] = Inr (dcur @ [x])"
    using resolve_one [OF dir ent val] by blast
  from val have x: "x \<noteq> []" "CHR ''/'' \<notin> set x" by (auto simp: valid_name_def)
  then have nabs: "\<not> py_startswith x ''/''"
    by (cases x) (auto simp: py_startswith_def)
  have sx: "py_split CHR ''/'' x = [x]" using x by (simp add: py_split_no_sep)
  have abs: "absolute (topd @ y) = absolute topd" for y
    using ne by (cases topd) (auto simp: absolute_def py_startswith_def)
  show ?thesis
  proof (cases "py_endswith topd ''/''")
    case True
    then obtain t where t: "topd = t @ ''/''" by (auto simp: py_endswith_def suffix_def)
    have j: "join topd x = t @ CHR ''/'' # x" using nabs True t by (simp add: join_def)
    have s1: "py_split CHR ''/'' topd = py_split CHR ''/'' t @ [[]]"
      unfolding t using py_split_append_sep [of "CHR ''/''" t "[]"] by simp
    have s2: "py_split CHR ''/'' (join topd x) = py_split CHR ''/'' t @ [x]"
      unfolding j using py_split_append_sep [of "CHR ''/''" t x] sx by simp
    from r have "resolve (root w) Follow 40 ?st (py_split CHR ''/'' t @ [[]]) = Inr dcur"
      unfolding s1 .
    from resolve_append_empty [OF this one]
    have "resolve (root w) Follow 40 ?st (py_split CHR ''/'' (join topd x)) = Inr (dcur @ [x])"
      unfolding s2 .
    moreover have "absolute (join topd x) = absolute topd"
      using abs [of x] True nabs by (simp add: join_def)
    moreover have "join topd x \<noteq> []" using j by simp
    ultimately show ?thesis by (simp add: resolve_path_def)
  next
    case False
    have j: "join topd x = topd @ CHR ''/'' # x" using nabs False ne by (simp add: join_def)
    have s2: "py_split CHR ''/'' (join topd x) = py_split CHR ''/'' topd @ [x]"
      unfolding j using py_split_append_sep [of "CHR ''/''" topd x] sx by simp
    from resolve_append [OF r one]
    have "resolve (root w) Follow 40 ?st (py_split CHR ''/'' (join topd x)) = Inr (dcur @ [x])"
      unfolding s2 .
    moreover have "absolute (join topd x) = absolute topd"
      unfolding j using abs [of "CHR ''/'' # x"] by simp
    moreover have "join topd x \<noteq> []" using j by simp
    ultimately show ?thesis by (simp add: resolve_path_def)
  qed
qed

lemma walk_node_Dir:
  "walk_node w topd (Dir es) =
     (topd, map fst (filter (entry_is_dir w topd) es),
           map fst (filter (\<lambda>e. \<not> entry_is_dir w topd e) es))
     # concat (map (\<lambda>(name, n). case n of Dir _ \<Rightarrow> walk_node w (join topd name) n | _ \<Rightarrow> []) es)"
  by (rule walk_node.simps(1))

lemma walked_first:
  assumes "(x, n) \<in> set es" "\<not> entry_is_dir w topd (x, n)"
  shows "join topd x \<in> set (concat (map (\<lambda>(rt, dirs, files). map (join rt) files)
              (walk_node w topd (Dir es))))"
proof -
  from assms have "join topd x \<in> (\<lambda>e. join topd (fst e)) ` {e \<in> set es. \<not> entry_is_dir w topd e}"
    by (intro image_eqI [of _ _ "(x, n)"]) simp_all
  then show ?thesis
    unfolding walk_node_Dir by simp
qed

lemma walked_sub:
  assumes "(x, Dir es') \<in> set es"
    and "p \<in> set (concat (map (\<lambda>(rt, dirs, files). map (join rt) files)
              (walk_node w (join topd x) (Dir es'))))"
  shows "p \<in> set (concat (map (\<lambda>(rt, dirs, files). map (join rt) files)
              (walk_node w topd (Dir es))))"
proof -
  define F where "F = (\<lambda>(name, n). case n of Dir _ \<Rightarrow> walk_node w (join topd name) n
                                         | _ \<Rightarrow> [])"
  define t where "t = (topd, map fst (filter (entry_is_dir w topd) es),
           map fst (filter (\<lambda>e. \<not> entry_is_dir w topd e) es))"
  have sub: "walk_node w (join topd x) (Dir es') = F (x, Dir es')"
    by (simp add: F_def)
  have w: "walk_node w topd (Dir es) = t # concat (map F es)"
    unfolding F_def t_def by (rule walk_node_Dir)
  from assms(1) have "set (F (x, Dir es')) \<subseteq> set (concat (map F es))"
    by simp blast
  then have "set (walk_node w (join topd x) (Dir es')) \<subseteq> set (walk_node w topd (Dir es))"
    unfolding sub w by auto
  with assms(2) show ?thesis
    by (simp only: set_concat set_map) blast
qed

lemma walk_finds_file:
  assumes "valid_names (Dir es)" "resolve_path w Follow topd = Inr dcur"
    "lookup_node (root w) dcur = Some (Dir es)" "rest \<noteq> []"
    "lookup_node (Dir es) rest = Some (File c)"
  shows "\<exists>p \<in> set (concat (map (\<lambda>(rt, dirs, files). map (join rt) files)
              (walk_node w topd (Dir es)))).
           resolve_path w Follow p = Inr (dcur @ rest)"
  using assms
proof (induction rest arbitrary: es topd dcur)
  case Nil
  then show ?case by simp
next
  case (Cons x rest)
  from Cons.prems(5) obtain n where n: "map_of es x = Some n" "lookup_node n rest = Some (File c)"
    by (auto split: option.splits)
  then have mem: "(x, n) \<in> set es" by (auto dest: map_of_SomeD)
  with Cons.prems(1) have vx: "valid_name x" and vn: "valid_names n"
    by (auto simp: list_all_iff)
  show ?case
  proof (cases rest)
    case Nil
    with n have nf: "n = File c" by simp
    then have nl: "\<And>t. n \<noteq> Link t" by simp
    from resolve_path_join [OF Cons.prems(2,3) n(1) nl vx]
    have r: "resolve_path w Follow (join topd x) = Inr (dcur @ [x])" .
    have "\<not> entry_is_dir w topd (x, n)" using nf by (simp add: entry_is_dir_def)
    with mem have "join topd x \<in> set (concat (map (\<lambda>(rt, dirs, files). map (join rt) files)
              (walk_node w topd (Dir es))))"
      by (rule walked_first)
    with r Nil show ?thesis by (intro bexI [of _ "join topd x"]) simp_all
  next
    case (Cons y ys)
    with n obtain es' where nd: "n = Dir es'" by (cases n) auto
    then have nl: "\<And>t. n \<noteq> Link t" by simp
    from resolve_path_join [OF Cons.prems(2,3) n(1) nl vx]
    have r: "resolve_path w Follow (join topd x) = Inr (dcur @ [x])" .
    from lookup_node_append [OF Cons.prems(3), of "[x]"] n(1) nd
    have d': "lookup_node (root w) (dcur @ [x]) = Some (Dir es')" by simp
    from Cons.IH [of es' "join topd x" "dcur @ [x]"] vn nd r d' n(2) Cons
    obtain p where p: "p \<in> set (concat (map (\<lambda>(rt, dirs, files). map (join rt) files)
              (walk_node w (join topd x) (Dir es'))))"
      "resolve_path w Follow p = Inr ((dcur @ [x]) @ rest)"
      by blast
    from mem nd have "(x, Dir es') \<in> set es" by simp
    from walked_sub [OF this p(1)]
    have "p \<in> set (concat (map (\<lambda>(rt, dirs, files). map (join rt) files)
              (walk_node w topd (Dir es))))" .
    with p(2) show ?thesis by (intro bexI [of _ p]) simp_all
  qed
qed

text \<open>
  Claim C9. Let \<^verbatim>\<open>fix_permissions(directory)\<close> return, where \<^verbatim>\<open>directory\<close> names the
  place \<open>d\<close> of a tree whose entries have proper names. The tree is unchanged; every regular
  file below \<open>d\<close> has its former permission bits or-ed with the owner-write bit, so it is
  writable by its owner; no permission bit of any file of the system is removed; and a
  second run returns and changes no mode.
\<close>

theorem fix_permissions_owner_write:
  assumes ret: "fix_permissions directory w = (None, w')"
    and dir: "resolve_path w Follow directory = Inr d"
    and val: "valid_names (root w)"
  shows "root w' = root w
       \<and> (\<forall>rest c. rest \<noteq> [] \<and> lookup_node (root w) (d @ rest) = Some (File c) \<longrightarrow>
            modes w' (d @ rest) = modes w (d @ rest) OR 128 \<and> bit (modes w' (d @ rest)) 7)
       \<and> (\<forall>q. modes w q AND modes w' q = modes w q)
       \<and> fix_permissions directory w' = (None, w')"
proof -
  let ?S = "\<lambda>p. reading (os_stat p) (\<lambda>mode. os_chmod p (mode OR S_IWRITE))"
  let ?P = "walked_files directory w"
  let ?M = "\<lambda>q. if Some q \<in> set (map (target_of w) ?P) then modes w q OR 128 else modes w q"
  from ret have loop: "for_each ?P ?S w = (None, w')" by (simp add: fix_permissions_flat)
  from loop_exact [OF loop]
  have w': "w' = w\<lparr>modes := ?M\<rparr>"
    and ok: "\<forall>p \<in> set ?P. \<exists>q n. resolve_path w Follow p = Inr q
                                \<and> lookup_node (root w) q = Some n"
    by blast+
  have rt: "root w' = root w" by (subst w') simp
  have md: "modes w' = ?M" by (subst w') simp
  have files: "modes w' (d @ rest) = modes w (d @ rest) OR 128 \<and> bit (modes w' (d @ rest)) 7"
    if rest: "rest \<noteq> []" and f: "lookup_node (root w) (d @ rest) = Some (File c)" for rest c
  proof -
    from lookup_node_prefix [OF f] obtain k where k: "lookup_node (root w) d = Some k" by blast
    from lookup_node_append [OF k, of rest] f have kf: "lookup_node k rest = Some (File c)"
      by simp
    with rest obtain es where es: "k = Dir es" by (cases k; cases rest) auto
    from valid_names_lookup [OF val k] es have ves: "valid_names (Dir es)" by simp
    from dir k es have walk: "os_walk directory w = walk_node w directory (Dir es)"
      by (simp add: os_walk_def node_at_def ebind_def)
    from walk_finds_file [OF ves dir _ rest] k es kf
    obtain p where p: "p \<in> set ?P" "resolve_path w Follow p = Inr (d @ rest)"
      unfolding walked_files_def walk by blast
    from p(2) f have "target_of w p = Some (d @ rest)" by (simp add: target_of_def)
    with p(1) have "Some (d @ rest) \<in> set (map (target_of w) ?P)" by force
    then have "modes w' (d @ rest) = modes w (d @ rest) OR 128" by (simp add: md)
    then show ?thesis by (simp add: bit7_or_128)
  qed
  have sup: "modes w q AND modes w' q = modes w q" for q
    by (simp add: md and_or_128)
  have wf': "walked_files directory w' = ?P" by (subst w') simp
  have rp: "resolve_path w' Follow p = resolve_path w Follow p" for p by (subst w') simp
  have tg: "target_of w' p = target_of w p" for p by (subst w') simp
  have again: "for_each ?P ?S w' = (None, w')"
  proof (rule loop_noop)
    show "\<forall>p \<in> set ?P. \<exists>q n. resolve_path w' Follow p = Inr q
                                \<and> lookup_node (root w') q = Some n"
      using ok by (simp add: rp rt)
  next
    show "\<forall>p \<in> set ?P. \<forall>q. target_of w' p = Some q \<longrightarrow> modes w' q OR 128 = modes w' q"
    proof (intro ballI allI impI)
      fix p q
      assume "p \<in> set ?P" "target_of w' p = Some q"
      then have "Some q \<in> set (map (target_of w) ?P)" by (force simp: tg)
      then show "modes w' q OR 128 = modes w' q" by (simp add: md or_or_128)
    qed
  qed
  then have idem: "fix_permissions directory w' = (None, w')"
    by (simp add: fix_permissions_flat wf')
  from rt files sup idem show ?thesis by blast
qed

text \<open>
  The tree \<^verbatim>\<open>/w/t\<close> of the examples: the file \<^verbatim>\<open>s/b\<close> goes from \<^verbatim>\<open>0o444\<close> to
  \<^verbatim>\<open>0o644\<close>, the file beside the tree keeps \<^verbatim>\<open>0o444\<close>.
\<close>

theorem fix_permissions_owner_write_witness:
  "fst (fix_permissions ''t'' ex_readonly) = None
   \<and> resolve_path ex_readonly Follow ''t'' = Inr [''w'', ''t'']
   \<and> valid_names (root ex_readonly)
   \<and> lookup_node (root ex_readonly) ([''w'', ''t''] @ [''s'', ''b'']) = Some (File (Bytes ''2''))
   \<and> modes ex_readonly ([''w'', ''t''] @ [''s'', ''b'']) = 292
   \<and> modes (snd (fix_permissions ''t'' ex_readonly)) ([''w'', ''t''] @ [''s'', ''b''])
        = modes ex_readonly ([''w'', ''t''] @ [''s'', ''b'']) OR 128
   \<and> bit (modes (snd (fix_permissions ''t'' ex_readonly)) ([''w'', ''t''] @ [''s'', ''b''])) 7
   \<and> modes (snd (fix_permissions ''t'' ex_readonly)) [''w'', ''t'', ''s'', ''b''] = 420
   \<and> modes (snd (fix_permissions ''t'' ex_readonly)) [''w'', ''u''] = 292
   \<and> fix_permissions ''t'' (snd (fix_permissions ''t'' ex_readonly))
        = (None, snd (fix_permissions ''t'' ex_readonly))"
proof -
  let ?R = "fix_permissions ''t'' ex_readonly"
  have r: "fst ?R = None" by code_simp
  then have r': "?R = (None, snd ?R)" by (metis prod.collapse)
  have d: "resolve_path ex_readonly Follow ''t'' = Inr [''w'', ''t'']" by code_simp
  have v: "valid_names (root ex_readonly)" by code_simp
  have l: "lookup_node (root ex_readonly) ([''w'', ''t''] @ [''s'', ''b'']) = Some (File (Bytes ''2''))"
    by code_simp
  have m0: "modes ex_readonly ([''w'', ''t''] @ [''s'', ''b'']) = 292" by (simp add: ex_readonly_def)
  have m1: "modes (snd ?R) [''w'', ''t'', ''s'', ''b''] = 420" by code_simp
  have m2: "modes (snd ?R) [''w'', ''u''] = 292" by code_simp
  have ne: "[''s'', ''b''] \<noteq> []" by simp
  note th = fix_permissions_owner_write [OF r' d v]
  from th l ne have a: "modes (snd ?R) ([''w'', ''t''] @ [''s'', ''b''])
        = modes ex_readonly ([''w'', ''t''] @ [''s'', ''b'']) OR 128"
    "bit (modes (snd ?R) ([''w'', ''t''] @ [''s'', ''b''])) 7" by blast+
  from th have i: "fix_permissions ''t'' (snd ?R) = (None, snd ?R)" by blast
  show ?thesis using r d v l m0 a m1 m2 i by blast
qed


subsection \<open>Merging into a destination that exists (C6)\<close>

text \<open>
  Claim C6 says that after \<^verbatim>\<open>flatten_tree\<close> the staging tree is deleted and the
  destination holds the merged copy, and that a destination which exists is not an error.
  The function passes \<^verbatim>\<open>dirs_exist_ok\<close> and catches \<^verbatim>\<open>FileExistsError\<close>, but two
  inputs escape this. When the destination already holds a symbolic link of the same name,
  \<^verbatim>\<open>copytree\<close> collects the \<^verbatim>\<open>FileExistsError\<close> of \<^verbatim>\<open>os.symlink\<close> and raises
  \<^verbatim>\<open>shutil.Error\<close>, which the handler does not catch: the function raises and the staging
  tree stays. When the destination is a regular file, \<^verbatim>\<open>copytree\<close> raises
  \<^verbatim>\<open>FileExistsError\<close> before it copies anything, the handler swallows it, and the staging
  tree is deleted although nothing of it has reached the destination.
\<close>

theorem flatten_tree_existing_destination:
  "fst (flatten_tree ''t'' ''out/p'' None ex_rerun) = Some (ShutilError [FileExistsError])
   \<and> os_path_isdir ex_rerun ''out/p''
   \<and> os_path_isdir (snd (flatten_tree ''t'' ''out/p'' None ex_rerun)) ''t''
   \<and> fst (flatten_tree ''t'' ''out/p'' None ex_destfile) = None
   \<and> os_path_isfile ex_destfile ''t/a''
   \<and> \<not> os_path_exists (snd (flatten_tree ''t'' ''out/p'' None ex_destfile)) ''t''
   \<and> os_path_isfile (snd (flatten_tree ''t'' ''out/p'' None ex_destfile)) ''out/p''
   \<and> \<not> os_path_exists (snd (flatten_tree ''t'' ''out/p'' None ex_destfile)) ''out/p/a''"
  by code_simp

end
